theory Spec2Isabelle
  imports Main "HOL-Library.Word"
begin

unbundle bit_operations_syntax

section \<open>UEFI base types used by storage.c\<close>

text \<open>
  The UEFI headers are not part of the repository. \<open>EFI_STATUS\<close>, \<open>EFI_LBA\<close> and
  \<open>UINTN\<close> are 64-bit unsigned integers on the x86_64 target; an error status has its
  top bit set (\<^verbatim>\<open>#define EFI_ERROR(a) (((INTN) a) < 0)\<close>).
\<close>

type_synonym EFI_STATUS = "64 word"
type_synonym EFI_LBA = "64 word"
type_synonym UINTN = "64 word"

definition EFI_SUCCESS :: EFI_STATUS where
  "EFI_SUCCESS = 0"

definition EFIERR :: "64 word \<Rightarrow> EFI_STATUS" where
  "EFIERR a = 0x8000000000000000 OR a"

definition EFI_INVALID_PARAMETER :: EFI_STATUS where
  "EFI_INVALID_PARAMETER = EFIERR 2"

definition EFI_UNSUPPORTED :: EFI_STATUS where
  "EFI_UNSUPPORTED = EFIERR 3"

definition EFI_ERROR :: "EFI_STATUS \<Rightarrow> bool" where
  "EFI_ERROR a = (sint a < 0)"

text \<open>
  \<open>PCI_DEVICE_PATH\<close>: the generic device-path header (Type, SubType, Length[2])
  followed by the two bytes Function and Device.
\<close>

record PCI_DEVICE_PATH =
  Header_Type :: "8 word"
  Header_SubType :: "8 word"
  Header_Length :: "8 word \<times> 8 word"
  Function :: "8 word"
  Device :: "8 word"

section \<open>Storage descriptors (storage.h)\<close>

text \<open>
  Modelled from the spec: \<open>enum storage_type\<close> is declared in storage.h, which is not
  under src/. The spec gives the ordered enumeration EMMC, UFS, SDCARD, SATA, ALL; the
  initialiser of \<open>supported_storage[STORAGE_ALL]\<close> in storage.c lists the same four in
  the same order.
\<close>

datatype storage_type = STORAGE_EMMC | STORAGE_UFS | STORAGE_SDCARD | STORAGE_SATA | STORAGE_ALL

fun storage_ord :: "storage_type \<Rightarrow> nat" where
  "storage_ord STORAGE_EMMC = 0"
| "storage_ord STORAGE_UFS = 1"
| "storage_ord STORAGE_SDCARD = 2"
| "storage_ord STORAGE_SATA = 3"
| "storage_ord STORAGE_ALL = 4"

text \<open>
  \<open>struct storage\<close>: the capability contract of one technology. The type parameters
  are the handle type \<open>'h\<close>, the device path type \<open>'p\<close>, the block I/O object \<open>'b\<close>
  and the logical unit type \<open>'u\<close>. The function pointers are external code; they are
  taken as functions of their arguments.
\<close>

record ('h, 'p, 'b, 'u) storage =
  name :: string
  probe :: "'p \<Rightarrow> bool"
  check_logical_unit :: "'p \<Rightarrow> 'u \<Rightarrow> EFI_STATUS"
  erase_blocks :: "'h \<Rightarrow> 'b \<Rightarrow> EFI_LBA \<Rightarrow> EFI_LBA \<Rightarrow> EFI_STATUS"

text \<open>
  The firmware services and helpers storage.c calls: \<open>BS->LocateHandleBuffer\<close> for the
  Block IO protocol (status and handle buffer), \<open>DevicePathFromHandle\<close>,
  \<open>get_pci_device_path\<close> (pci.c; NULL when the path has no PCI node) and the four
  extern descriptors \<open>STORAGE(X)\<close>.
\<close>

record ('h, 'p, 'b, 'u) efi_env =
  LocateHandleBuffer :: "EFI_STATUS \<times> 'h list"
  DevicePathFromHandle :: "'h \<Rightarrow> 'p option"
  get_pci_device_path :: "'p \<Rightarrow> PCI_DEVICE_PATH option"
  STORAGE :: "storage_type \<Rightarrow> ('h, 'p, 'b, 'u) storage"

section \<open>The module's static state\<close>

text \<open>
  The four file-scope statics of storage.c, and a counter of the calls made to
  \<open>LocateHandleBuffer\<close> so that device enumerations can be observed.
\<close>

record ('h, 'p, 'b, 'u) storage_state =
  cur_storage :: "('h, 'p, 'b, 'u) storage option"
  boot_device :: PCI_DEVICE_PATH
  boot_device_type :: storage_type
  initialized :: bool
  locate_calls :: nat

definition initial_state :: "('h, 'p, 'b, 'u) storage_state" where
  "initial_state =
     \<lparr> cur_storage = None,
       boot_device = \<lparr> Header_Type = 0, Header_SubType = 0, Header_Length = (0, 0),
                       Function = - 1, Device = - 1 \<rparr>,
       boot_device_type = STORAGE_EMMC,
       initialized = False,
       locate_calls = 0 \<rparr>"

definition is_boot_device ::
  "('h, 'p, 'b, 'u) efi_env \<Rightarrow> ('h, 'p, 'b, 'u) storage_state \<Rightarrow> 'p \<Rightarrow> bool" where
  "is_boot_device env s p =
     (if Header_Type (boot_device s) = 0 then False
      else (case get_pci_device_path env p of
              None \<Rightarrow> False
            | Some pci \<Rightarrow> Function pci = Function (boot_device s)
                          \<and> Device pci = Device (boot_device s)))"

section \<open>identify_storage\<close>

text \<open>
  The static table \<open>supported_storage[STORAGE_ALL]\<close> holds the addresses of the four
  extern descriptors, indexed by technology. The loop over \<open>st\<close> from STORAGE_EMMC up
  to, not including, STORAGE_ALL is the recursion over the list of the four technologies.
  The C parameter \<open>filter\<close> is written \<open>fltr\<close>.
\<close>

definition supported_storage ::
  "('h, 'p, 'b, 'u) efi_env \<Rightarrow> storage_type \<Rightarrow> ('h, 'p, 'b, 'u) storage option" where
  "supported_storage env st =
     (case st of STORAGE_ALL \<Rightarrow> None | _ \<Rightarrow> Some (STORAGE env st))"

fun identify_storage_from ::
  "('h, 'p, 'b, 'u) efi_env \<Rightarrow> 'p \<Rightarrow> storage_type \<Rightarrow> storage_type list
     \<Rightarrow> EFI_STATUS + (('h, 'p, 'b, 'u) storage \<times> storage_type)" where
  "identify_storage_from env device_path fltr [] = Inl EFI_UNSUPPORTED"
| "identify_storage_from env device_path fltr (st # sts) =
     (case supported_storage env st of
        None \<Rightarrow> identify_storage_from env device_path fltr sts
      | Some sg \<Rightarrow>
          if (fltr = st \<or> fltr = STORAGE_ALL) \<and> probe sg device_path
          then Inr (sg, st)
          else identify_storage_from env device_path fltr sts)"

definition identify_storage ::
  "('h, 'p, 'b, 'u) efi_env \<Rightarrow> 'p \<Rightarrow> storage_type
     \<Rightarrow> EFI_STATUS + (('h, 'p, 'b, 'u) storage \<times> storage_type)" where
  "identify_storage env device_path fltr =
     identify_storage_from env device_path fltr
       [STORAGE_EMMC, STORAGE_UFS, STORAGE_SDCARD, STORAGE_SATA]"

section \<open>identify_boot_device\<close>

text \<open>
  The body of the \<open>for\<close> loop over the handle buffer. The result \<open>Some ret\<close> is the
  early \<open>return ret\<close> inside the loop; \<open>None\<close> means the loop ran to its end.
\<close>

fun scan_handles ::
  "('h, 'p, 'b, 'u) efi_env \<Rightarrow> storage_type \<Rightarrow> 'h list \<Rightarrow> ('h, 'p, 'b, 'u) storage_state
     \<Rightarrow> EFI_STATUS option \<times> ('h, 'p, 'b, 'u) storage_state" where
  "scan_handles env fltr [] s = (None, s)"
| "scan_handles env fltr (h # hs) s =
     (case DevicePathFromHandle env h of
        None \<Rightarrow> scan_handles env fltr hs s
      | Some device_path \<Rightarrow>
          (case get_pci_device_path env device_path of
             None \<Rightarrow> scan_handles env fltr hs s
           | Some pci \<Rightarrow>
               if Function (boot_device s) = Function pci
                  \<and> Device (boot_device s) = Device pci
               then scan_handles env fltr hs s
               else
                 (case identify_storage env device_path fltr of
                    Inl ret \<Rightarrow> scan_handles env fltr hs s
                  | Inr (sg, type) \<Rightarrow>
                      if Header_Type (boot_device s) = 0
                         \<or> storage_ord (boot_device_type s) > storage_ord type
                      then scan_handles env fltr hs
                             (s\<lparr> boot_device := pci, boot_device_type := type,
                                 cur_storage := Some sg \<rparr>)
                      else if boot_device_type s = type
                      then (Some EFI_UNSUPPORTED,
                            s\<lparr> cur_storage := None,
                               boot_device := (boot_device s)\<lparr> Header_Type := 0 \<rparr> \<rparr>)
                      else scan_handles env fltr hs s)))"

definition identify_boot_device ::
  "('h, 'p, 'b, 'u) efi_env \<Rightarrow> storage_type \<Rightarrow> ('h, 'p, 'b, 'u) storage_state
     \<Rightarrow> EFI_STATUS \<times> ('h, 'p, 'b, 'u) storage_state" where
  "identify_boot_device env fltr s =
     (let s1 = s\<lparr> cur_storage := None, locate_calls := Suc (locate_calls s) \<rparr>;
          ret = fst (LocateHandleBuffer env);
          handles = snd (LocateHandleBuffer env)
      in if EFI_ERROR ret then (ret, s1)
         else
           (let s2 = s1\<lparr> boot_device := (boot_device s1)\<lparr> Header_Type := 0 \<rparr> \<rparr>
            in case scan_handles env fltr handles s2 of
                 (Some r, s3) \<Rightarrow> (r, s3)
               | (None, s3) \<Rightarrow>
                   if cur_storage s3 = None then (EFI_UNSUPPORTED, s3)
                   else (EFI_SUCCESS, s3)))"

section \<open>The boot device cache\<close>

definition valid_storage ::
  "('h, 'p, 'b, 'u) efi_env \<Rightarrow> ('h, 'p, 'b, 'u) storage_state
     \<Rightarrow> bool \<times> ('h, 'p, 'b, 'u) storage_state" where
  "valid_storage env s =
     (if \<not> initialized s
      then (let r = identify_boot_device env STORAGE_ALL (s\<lparr> initialized := True \<rparr>)
            in (\<not> EFI_ERROR (fst r), snd r))
      else (Header_Type (boot_device s) \<noteq> 0 \<and> cur_storage s \<noteq> None, s))"

text \<open>
  \<open>cur_storage->check_logical_unit\<close> and \<open>cur_storage->erase_blocks\<close> dereference
  the descriptor pointer; the status \<open>None\<close> stands for that dereference on a NULL
  pointer.
\<close>

definition storage_check_logical_unit ::
  "('h, 'p, 'b, 'u) efi_env \<Rightarrow> 'p \<Rightarrow> 'u \<Rightarrow> ('h, 'p, 'b, 'u) storage_state
     \<Rightarrow> EFI_STATUS option \<times> ('h, 'p, 'b, 'u) storage_state" where
  "storage_check_logical_unit env p log_unit s =
     (case valid_storage env s of
        (False, s') \<Rightarrow> (Some EFI_UNSUPPORTED, s')
      | (True, s') \<Rightarrow>
          if \<not> is_boot_device env s' p then (Some EFI_UNSUPPORTED, s')
          else (case cur_storage s' of
                  None \<Rightarrow> (None, s')
                | Some sg \<Rightarrow> (Some (check_logical_unit sg p log_unit), s')))"

definition storage_erase_blocks ::
  "('h, 'p, 'b, 'u) efi_env \<Rightarrow> 'h \<Rightarrow> 'b \<Rightarrow> EFI_LBA \<Rightarrow> EFI_LBA
     \<Rightarrow> ('h, 'p, 'b, 'u) storage_state
     \<Rightarrow> EFI_STATUS option \<times> ('h, 'p, 'b, 'u) storage_state" where
  "storage_erase_blocks env handle bio start end s =
     (case valid_storage env s of
        (False, s') \<Rightarrow> (Some EFI_UNSUPPORTED, s')
      | (True, s') \<Rightarrow>
          (case cur_storage s' of
             None \<Rightarrow> (None, s')
           | Some sg \<Rightarrow> (Some (erase_blocks sg handle bio start end), s')))"

definition storage_set_boot_device ::
  "('h, 'p, 'b, 'u) efi_env \<Rightarrow> 'h \<Rightarrow> ('h, 'p, 'b, 'u) storage_state
     \<Rightarrow> EFI_STATUS \<times> ('h, 'p, 'b, 'u) storage_state" where
  "storage_set_boot_device env device s =
     (case DevicePathFromHandle env device of
        None \<Rightarrow> (EFI_UNSUPPORTED, s)
      | Some device_path \<Rightarrow>
          (case get_pci_device_path env device_path of
             None \<Rightarrow> (EFI_UNSUPPORTED, s)
           | Some pci \<Rightarrow>
               (case identify_storage env device_path STORAGE_ALL of
                  Inl ret \<Rightarrow> (ret, s)
                | Inr (sg, type) \<Rightarrow>
                    (EFI_SUCCESS,
                     s\<lparr> cur_storage := Some sg, boot_device_type := type,
                        initialized := True, boot_device := pci \<rparr>))))"

definition get_boot_device ::
  "('h, 'p, 'b, 'u) efi_env \<Rightarrow> ('h, 'p, 'b, 'u) storage_state
     \<Rightarrow> PCI_DEVICE_PATH option \<times> ('h, 'p, 'b, 'u) storage_state" where
  "get_boot_device env s =
     (let s' = (if \<not> initialized s then snd (identify_boot_device env STORAGE_ALL s) else s)
      in (if Header_Type (boot_device s') = 0 then None else Some (boot_device s'), s'))"

section \<open>The block fill engine\<close>

text \<open>
  \<open>EFI_BLOCK_IO\<close>: the media fields fill_with reads and the \<open>WriteBlocks\<close> service.
  The device is a state of type \<open>'d\<close> which each write may change;
  \<open>WriteBlocks dev MediaId lba BufferSize buffer\<close> returns the status and the new device.
\<close>

record ('d, 'buf) EFI_BLOCK_IO =
  MediaId :: "32 word"
  BlockSize :: "32 word"
  WriteBlocks :: "'d \<Rightarrow> 32 word \<Rightarrow> EFI_LBA \<Rightarrow> UINTN \<Rightarrow> 'buf \<Rightarrow> EFI_STATUS \<times> 'd"

text \<open>\<^verbatim>\<open>#define percent5(x, max) (x) * 20 / (max) * 5\<close> on unsigned 64-bit operands.\<close>

definition percent5 :: "64 word \<Rightarrow> 64 word \<Rightarrow> 64 word" where
  "percent5 x mx = x * 20 div mx * 5"

text \<open>
  The \<open>for\<close> loop of fill_with. The loop variables are \<open>lba\<close>, \<open>prev\<close> and
  \<open>progress\<close>; the device and the list of write calls issued so far, each recorded as
  (first block, number of blocks), are threaded through. The loop may run forever, so the
  result is an option: \<open>None\<close> is a call that never returns. The \<open>debug\<close> output is
  not modelled.
\<close>

partial_function (option) fill_with_loop ::
  "('d, 'buf) EFI_BLOCK_IO \<Rightarrow> EFI_LBA \<Rightarrow> EFI_LBA \<Rightarrow> 'buf \<Rightarrow> UINTN
     \<Rightarrow> EFI_LBA \<Rightarrow> 64 word \<Rightarrow> 64 word \<Rightarrow> 'd \<Rightarrow> (EFI_LBA \<times> 64 word) list
     \<Rightarrow> (EFI_STATUS \<times> 'd \<times> (EFI_LBA \<times> 64 word) list) option" where
  "fill_with_loop bio start end pattern pattern_blocks lba prev progress dev writes =
     (if lba \<le> end then
        (let size = (if lba + pattern_blocks > end + 1 then end - lba + 1
                     else pattern_blocks);
             r = WriteBlocks bio dev (MediaId bio) lba (ucast (BlockSize bio) * size) pattern
         in if EFI_ERROR (fst r) then Some (fst r, snd r, writes @ [(lba, size)])
            else fill_with_loop bio start end pattern pattern_blocks
                   (lba + pattern_blocks) progress
                   (percent5 (lba + pattern_blocks - start) (end - start))
                   (snd r) (writes @ [(lba, size)]))
      else Some (EFI_SUCCESS, dev, writes))"

definition fill_with ::
  "('d, 'buf) EFI_BLOCK_IO \<Rightarrow> EFI_LBA \<Rightarrow> EFI_LBA \<Rightarrow> 'buf \<Rightarrow> UINTN \<Rightarrow> 'd
     \<Rightarrow> (EFI_STATUS \<times> 'd \<times> (EFI_LBA \<times> 64 word) list) option" where
  "fill_with bio start end pattern pattern_blocks dev =
     (if end \<le> start then Some (EFI_INVALID_PARAMETER, dev, [])
      else fill_with_loop bio start end pattern pattern_blocks start 0 0 dev [])"

section \<open>Notions used to state the properties\<close>

text \<open>
  Two PCI nodes denote the same bus address when they agree on Function and Device, the
  two fields storage.c compares.
\<close>

definition same_address :: "PCI_DEVICE_PATH \<Rightarrow> PCI_DEVICE_PATH \<Rightarrow> bool" where
  "same_address a b = (Function a = Function b \<and> Device a = Device b)"

text \<open>
  What the scan sees of one handle: its PCI node (if the handle has a device path with a
  PCI node), and the node together with the technology identify_storage reports for it.
\<close>

definition handle_pci :: "('h, 'p, 'b, 'u) efi_env \<Rightarrow> 'h \<Rightarrow> PCI_DEVICE_PATH option" where
  "handle_pci env h =
     (case DevicePathFromHandle env h of None \<Rightarrow> None
      | Some device_path \<Rightarrow> get_pci_device_path env device_path)"

definition recognized ::
  "('h, 'p, 'b, 'u) efi_env \<Rightarrow> storage_type \<Rightarrow> 'h \<Rightarrow> (PCI_DEVICE_PATH \<times> storage_type) option" where
  "recognized env fltr h =
     (case DevicePathFromHandle env h of None \<Rightarrow> None
      | Some device_path \<Rightarrow>
          (case get_pci_device_path env device_path of None \<Rightarrow> None
           | Some pci \<Rightarrow>
               (case identify_storage env device_path fltr of Inl ret \<Rightarrow> None
                | Inr (sg, type) \<Rightarrow> Some (pci, type))))"

text \<open>The spec's \<open>is_valid()\<close>: initialized, address not the sentinel, descriptor set.\<close>

definition cache_valid :: "('h, 'p, 'b, 'u) storage_state \<Rightarrow> bool" where
  "cache_valid s = (initialized s \<and> Header_Type (boot_device s) \<noteq> 0 \<and> cur_storage s \<noteq> None)"

text \<open>Every write of the device reports a status that is not an error.\<close>

definition writes_succeed :: "('d, 'buf) EFI_BLOCK_IO \<Rightarrow> bool" where
  "writes_succeed bio = (\<forall>dev m lba n buf. \<not> EFI_ERROR (fst (WriteBlocks bio dev m lba n buf)))"

text \<open>
  One write call as fill_with issues it for a recorded pair (first block, number of
  blocks): the media id of the device, the first block, the byte count
  \<open>BlockSize * size\<close> in 64-bit arithmetic and the pattern buffer. \<open>writes_ok\<close> says
  that each write of a list, issued in turn from a device state, reports no error;
  \<open>after_writes\<close> is the device state those writes leave.
\<close>

definition write_step ::
  "('d, 'buf) EFI_BLOCK_IO \<Rightarrow> 'buf \<Rightarrow> 'd \<Rightarrow> EFI_LBA \<times> 64 word \<Rightarrow> EFI_STATUS \<times> 'd" where
  "write_step bio pattern dev w =
     WriteBlocks bio dev (MediaId bio) (fst w) (ucast (BlockSize bio) * snd w) pattern"

fun writes_ok ::
  "('d, 'buf) EFI_BLOCK_IO \<Rightarrow> 'buf \<Rightarrow> 'd \<Rightarrow> (EFI_LBA \<times> 64 word) list \<Rightarrow> bool" where
  "writes_ok bio pattern dev [] = True"
| "writes_ok bio pattern dev (w # ws) =
     (\<not> EFI_ERROR (fst (write_step bio pattern dev w))
      \<and> writes_ok bio pattern (snd (write_step bio pattern dev w)) ws)"

fun after_writes ::
  "('d, 'buf) EFI_BLOCK_IO \<Rightarrow> 'buf \<Rightarrow> 'd \<Rightarrow> (EFI_LBA \<times> 64 word) list \<Rightarrow> 'd" where
  "after_writes bio pattern dev [] = dev"
| "after_writes bio pattern dev (w # ws) =
     after_writes bio pattern (snd (write_step bio pattern dev w)) ws"

text \<open>
  The tiling of a block range in the spec's words: \<open>k\<close> chunks from \<open>lba\<close>, each of
  \<open>pb\<close> blocks and clamped to the blocks remaining up to \<open>e\<close> inclusive.
\<close>

fun chunks :: "nat \<Rightarrow> nat \<Rightarrow> nat \<Rightarrow> nat \<Rightarrow> (nat \<times> nat) list" where
  "chunks 0 lba e pb = []"
| "chunks (Suc k) lba e pb = (lba, min pb (e + 1 - lba)) # chunks k (lba + pb) e pb"

section \<open>Example configurations\<close>

text \<open>
  Handles and device paths are natural numbers. Handle 0 has no device path; a path below
  100 has the PCI node of Function 0 and Device equal to the path; each path probes true
  for at most one technology, given by an association list.
\<close>

definition pci_node :: "8 word \<Rightarrow> 8 word \<Rightarrow> PCI_DEVICE_PATH" where
  "pci_node f d = \<lparr> Header_Type = 1, Header_SubType = 1, Header_Length = (6, 0),
                    Function = f, Device = d \<rparr>"

definition example_storage :: "(nat \<Rightarrow> bool) \<Rightarrow> (nat, nat, unit, unit) storage" where
  "example_storage pr =
     \<lparr> name = ''example'', probe = pr, check_logical_unit = (\<lambda>p u. EFI_SUCCESS),
       erase_blocks = (\<lambda>h b s e. EFI_SUCCESS) \<rparr>"

definition example_env ::
  "EFI_STATUS \<Rightarrow> nat list \<Rightarrow> (nat \<times> storage_type) list \<Rightarrow> (nat, nat, unit, unit) efi_env" where
  "example_env ret hs tys =
     \<lparr> LocateHandleBuffer = (ret, hs),
       DevicePathFromHandle = (\<lambda>h. if h = 0 then None else Some h),
       get_pci_device_path = (\<lambda>p. if p < 100 then Some (pci_node 0 (of_nat p)) else None),
       STORAGE = (\<lambda>t. example_storage (\<lambda>p. map_of tys p = Some t)) \<rparr>"

definition one_emmc :: "(nat, nat, unit, unit) efi_env" where
  "one_emmc = example_env EFI_SUCCESS [28] [(28, STORAGE_EMMC)]"

definition failed_enumeration :: "(nat, nat, unit, unit) efi_env" where
  "failed_enumeration = example_env (EFIERR 9) [] [(28, STORAGE_EMMC)]"

definition emmc_sata_sata :: "(nat, nat, unit, unit) efi_env" where
  "emmc_sata_sata = example_env EFI_SUCCESS [1, 2, 3]
                      [(1, STORAGE_EMMC), (2, STORAGE_SATA), (3, STORAGE_SATA)]"

definition emmc_ufs_sata :: "(nat, nat, unit, unit) efi_env" where
  "emmc_ufs_sata = example_env EFI_SUCCESS [1, 2, 3]
                      [(1, STORAGE_EMMC), (2, STORAGE_UFS), (3, STORAGE_SATA)]"

definition ufs_sata_ufs :: "(nat, nat, unit, unit) efi_env" where
  "ufs_sata_ufs = example_env EFI_SUCCESS [2, 4, 3]
                      [(2, STORAGE_UFS), (4, STORAGE_SATA), (3, STORAGE_UFS)]"

definition sata_then_ufs :: "(nat, nat, unit, unit) efi_env" where
  "sata_then_ufs = example_env EFI_SUCCESS [3, 2] [(2, STORAGE_UFS), (3, STORAGE_SATA)]"

definition ufs_then_sata :: "(nat, nat, unit, unit) efi_env" where
  "ufs_then_sata = example_env EFI_SUCCESS [2, 3] [(2, STORAGE_UFS), (3, STORAGE_SATA)]"

definition pinned_emmc :: "(nat, nat, unit, unit) storage_state" where
  "pinned_emmc = snd (storage_set_boot_device emmc_ufs_sata 1 initial_state)"

text \<open>A block device on which every write succeeds; its state counts the writes.\<close>

definition ok_bio :: "(nat, unit) EFI_BLOCK_IO" where
  "ok_bio = \<lparr> MediaId = 0, BlockSize = 512,
              WriteBlocks = (\<lambda>dev m lba n buf. (EFI_SUCCESS, Suc dev)) \<rparr>"

text \<open>
  A block device of a given block size on which every write succeeds; its state is the
  list of the calls it received, each as (first block, byte count).
\<close>

definition recording_bio :: "32 word \<Rightarrow> ((EFI_LBA \<times> UINTN) list, unit) EFI_BLOCK_IO" where
  "recording_bio bs = \<lparr> MediaId = 0, BlockSize = bs,
              WriteBlocks = (\<lambda>dev m lba n buf. (EFI_SUCCESS, dev @ [(lba, n)])) \<rparr>"

section \<open>Status codes\<close>

lemma EFI_ERROR_UNSUPPORTED: "EFI_ERROR EFI_UNSUPPORTED"
  by (simp add: EFI_ERROR_def EFI_UNSUPPORTED_def EFIERR_def)

lemma EFI_ERROR_INVALID_PARAMETER: "EFI_ERROR EFI_INVALID_PARAMETER"
  by (simp add: EFI_ERROR_def EFI_INVALID_PARAMETER_def EFIERR_def)

lemma not_EFI_ERROR_SUCCESS: "\<not> EFI_ERROR EFI_SUCCESS"
  by (simp add: EFI_ERROR_def EFI_SUCCESS_def)

section \<open>Properties of identify_storage\<close>

lemma identify_storage_from_Inr:
  "identify_storage_from env dp fltr sts = Inr (sg, ty) \<Longrightarrow>
     sg = STORAGE env ty \<and> ty \<in> set sts \<and> ty \<noteq> STORAGE_ALL \<and> probe sg dp
     \<and> (fltr = ty \<or> fltr = STORAGE_ALL)"
  by (induction sts) (auto simp: supported_storage_def split: option.splits if_splits storage_type.splits)

lemma identify_storage_from_Inl:
  "identify_storage_from env dp fltr sts = Inl e \<Longrightarrow> e = EFI_UNSUPPORTED"
  by (induction sts) (auto split: option.splits if_splits)

lemma identify_storage_Inr:
  "identify_storage env dp fltr = Inr (sg, ty) \<Longrightarrow>
     sg = STORAGE env ty \<and> ty \<noteq> STORAGE_ALL \<and> probe sg dp \<and> (fltr = ty \<or> fltr = STORAGE_ALL)"
  by (metis identify_storage_def identify_storage_from_Inr)

lemma identify_storage_Inl:
  "identify_storage env dp fltr = Inl e \<Longrightarrow> e = EFI_UNSUPPORTED"
  unfolding identify_storage_def by (rule identify_storage_from_Inl)

lemma identify_storage_no_probe:
  "\<forall>t\<in>{STORAGE_EMMC, STORAGE_UFS, STORAGE_SDCARD, STORAGE_SATA}. \<not> probe (STORAGE env t) dp \<Longrightarrow>
     identify_storage env dp fltr = Inl EFI_UNSUPPORTED"
  by (simp add: identify_storage_def supported_storage_def)

section \<open>Properties of the scan loop\<close>

lemma recognized_handle_pci:
  "recognized env fltr h = Some (pci, ty) \<Longrightarrow> handle_pci env h = Some pci"
  by (auto simp: recognized_def handle_pci_def split: option.splits sum.splits)

lemma scan_handles_Cons:
  "scan_handles env fltr (h # hs) s =
     (case recognized env fltr h of
        None \<Rightarrow> scan_handles env fltr hs s
      | Some (pci, ty) \<Rightarrow>
          if same_address (boot_device s) pci then scan_handles env fltr hs s
          else if Header_Type (boot_device s) = 0
                  \<or> storage_ord ty < storage_ord (boot_device_type s)
          then scan_handles env fltr hs
                 (s\<lparr> boot_device := pci, boot_device_type := ty,
                     cur_storage := Some (STORAGE env ty) \<rparr>)
          else if boot_device_type s = ty
          then (Some EFI_UNSUPPORTED,
                s\<lparr> cur_storage := None,
                   boot_device := (boot_device s)\<lparr> Header_Type := 0 \<rparr> \<rparr>)
          else scan_handles env fltr hs s)"
  by (auto simp: recognized_def same_address_def split: option.splits sum.splits
           dest: identify_storage_Inr)

declare scan_handles.simps(2) [simp del]

lemmas example_defs =
  example_env_def example_storage_def pci_node_def initial_state_def
  identify_boot_device_def identify_storage_def supported_storage_def get_boot_device_def
  storage_set_boot_device_def valid_storage_def storage_check_logical_unit_def
  is_boot_device_def recognized_def handle_pci_def same_address_def
  EFI_ERROR_def EFI_SUCCESS_def EFI_UNSUPPORTED_def EFIERR_def Let_def scan_handles.simps

lemma same_address_sym: "same_address a b \<Longrightarrow> same_address b a"
  by (simp add: same_address_def)

lemma same_address_trans: "same_address a b \<Longrightarrow> same_address b c \<Longrightarrow> same_address a c"
  by (simp add: same_address_def)

lemma same_address_refl: "same_address a a"
  by (simp add: same_address_def)

text \<open>Phase 2 of the priority scan: the best technology is already accepted.\<close>

lemma scan_keeps_best:
  assumes "Header_Type (boot_device s) \<noteq> 0"
    and "\<forall>h\<in>set hs. \<forall>pci ty. recognized env fltr h = Some (pci, ty) \<longrightarrow>
           same_address (boot_device s) pci \<or> storage_ord (boot_device_type s) < storage_ord ty"
  shows "scan_handles env fltr hs s = (None, s)"
  using assms
proof (induction hs)
  case Nil
  then show ?case by simp
next
  case (Cons h hs)
  have tl: "scan_handles env fltr hs s = (None, s)"
    using Cons by simp
  show ?case
  proof (cases "recognized env fltr h")
    case None
    then show ?thesis using tl by (simp only: scan_handles_Cons option.case)
  next
    case (Some r)
    obtain pci ty where r: "r = (pci, ty)" by (cases r)
    have "same_address (boot_device s) pci \<or> storage_ord (boot_device_type s) < storage_ord ty"
      using Cons.prems(2) Some r by simp
    then show ?thesis
      using tl Some r Cons.prems(1)
      by (auto simp only: scan_handles_Cons option.case prod.case split: if_splits)
  qed
qed

lemma scan_selects_best:
  assumes sub: "set hs \<subseteq> set hs0"
    and wf: "\<forall>h\<in>set hs0. \<forall>pci. handle_pci env h = Some pci \<longrightarrow> Header_Type pci \<noteq> 0"
    and prio: "\<forall>h\<in>set hs0. \<forall>pci ty. recognized env fltr h = Some (pci, ty) \<longrightarrow>
                 (if same_address pci pci1 then ty = T1 else storage_ord T1 < storage_ord ty)"
    and uniq: "\<forall>h\<in>set hs0. \<forall>h'\<in>set hs0. \<forall>pci pci' ty.
                 recognized env fltr h = Some (pci, ty) \<and> recognized env fltr h' = Some (pci', ty)
                 \<longrightarrow> same_address pci pci'"
    and h1: "h1 \<in> set hs" "recognized env fltr h1 = Some (pci1, T1)"
    and inv: "(Header_Type (boot_device s) = 0
                \<and> (\<forall>h\<in>set hs0. \<forall>pci. handle_pci env h = Some pci
                      \<longrightarrow> \<not> same_address (boot_device s) pci))
              \<or> (Header_Type (boot_device s) \<noteq> 0
                  \<and> storage_ord T1 < storage_ord (boot_device_type s)
                  \<and> (\<exists>hx\<in>set hs0. recognized env fltr hx
                                      = Some (boot_device s, boot_device_type s)))"
  shows "\<exists>s'. scan_handles env fltr hs s = (None, s')
           \<and> cur_storage s' = Some (STORAGE env T1) \<and> boot_device_type s' = T1
           \<and> (\<exists>h\<in>set hs0. recognized env fltr h = Some (boot_device s', T1))
           \<and> initialized s' = initialized s \<and> locate_calls s' = locate_calls s"
  using sub h1(1) inv
proof (induction hs arbitrary: s)
  case Nil
  then show ?case by simp
next
  case (Cons h hs)
  have h0: "h \<in> set hs0" and sub': "set hs \<subseteq> set hs0"
    using Cons.prems(1) by auto
  note inv = Cons.prems(3)
  show ?case
  proof (cases "recognized env fltr h")
    case None
    then have "h \<noteq> h1" using h1(2) by auto
    then have "h1 \<in> set hs" using Cons.prems(2) by auto
    from Cons.IH [OF sub' this inv] None show ?thesis
      by (simp add: scan_handles_Cons)
  next
    case (Some r)
    obtain pci ty where r: "recognized env fltr h = Some (pci, ty)"
      using Some by (cases r) auto
    have hp: "handle_pci env h = Some pci"
      using r by (rule recognized_handle_pci)
    have pr: "if same_address pci pci1 then ty = T1 else storage_ord T1 < storage_ord ty"
      using prio h0 r by blast
    show ?thesis
    proof (cases "same_address (boot_device s) pci")
      case True
      with inv hp h0 obtain hx where hx: "hx \<in> set hs0"
        "recognized env fltr hx = Some (boot_device s, boot_device_type s)"
        and lt: "storage_ord T1 < storage_ord (boot_device_type s)"
        by blast
      have "\<not> same_address pci pci1"
      proof
        assume "same_address pci pci1"
        with True have "same_address (boot_device s) pci1" by (rule same_address_trans)
        with prio hx have "boot_device_type s = T1" by (metis (full_types))
        with lt show False by simp
      qed
      then have "h \<noteq> h1" using h1(2) r by (auto simp: same_address_refl)
      then have "h1 \<in> set hs" using Cons.prems(2) by auto
      from Cons.IH [OF sub' this inv] r True show ?thesis
        by (simp add: scan_handles_Cons)
    next
      case False
      show ?thesis
      proof (cases "Header_Type (boot_device s) = 0
                    \<or> storage_ord ty < storage_ord (boot_device_type s)")
        case acc: True
        let ?s1 = "s\<lparr> boot_device := pci, boot_device_type := ty,
                       cur_storage := Some (STORAGE env ty) \<rparr>"
        have step: "scan_handles env fltr (h # hs) s = scan_handles env fltr hs ?s1"
          using r False acc by (simp add: scan_handles_Cons)
        have ht: "Header_Type pci \<noteq> 0" using wf h0 hp by blast
        show ?thesis
        proof (cases "same_address pci pci1")
          case True
          then have ty: "ty = T1" using pr by simp
          have "\<forall>h\<in>set hs. \<forall>pci' ty'. recognized env fltr h = Some (pci', ty') \<longrightarrow>
                  same_address (boot_device ?s1) pci'
                  \<or> storage_ord (boot_device_type ?s1) < storage_ord ty'"
          proof (intro ballI allI impI)
            fix h' pci' ty'
            assume a: "h' \<in> set hs" "recognized env fltr h' = Some (pci', ty')"
            then have "if same_address pci' pci1 then ty' = T1
                       else storage_ord T1 < storage_ord ty'"
              using prio sub' by blast
            then show "same_address (boot_device ?s1) pci'
                       \<or> storage_ord (boot_device_type ?s1) < storage_ord ty'"
              using True ty
              by (auto simp: same_address_def split: if_splits)
          qed
          then have "scan_handles env fltr hs ?s1 = (None, ?s1)"
            using ht by (intro scan_keeps_best) simp_all
          then show ?thesis
            using step ty r h0 by auto
        next
          case nb: False
          then have lt: "storage_ord T1 < storage_ord ty" using pr by simp
          have "h \<noteq> h1" using nb h1(2) r by (auto simp: same_address_refl)
          then have in_tl: "h1 \<in> set hs" using Cons.prems(2) by auto
          have inv1: "(Header_Type (boot_device ?s1) = 0
                \<and> (\<forall>h\<in>set hs0. \<forall>pci. handle_pci env h = Some pci
                      \<longrightarrow> \<not> same_address (boot_device ?s1) pci))
              \<or> (Header_Type (boot_device ?s1) \<noteq> 0
                  \<and> storage_ord T1 < storage_ord (boot_device_type ?s1)
                  \<and> (\<exists>hx\<in>set hs0. recognized env fltr hx
                                      = Some (boot_device ?s1, boot_device_type ?s1)))"
            using ht lt r h0 by auto
          from Cons.IH [OF sub' in_tl inv1] step show ?thesis by simp
        qed
      next
        case nacc: False
        then obtain hx where hx: "hx \<in> set hs0"
          "recognized env fltr hx = Some (boot_device s, boot_device_type s)"
          and lt: "storage_ord T1 < storage_ord (boot_device_type s)"
          using inv by blast
        have neq: "boot_device_type s \<noteq> ty"
        proof
          assume "boot_device_type s = ty"
          with uniq hx h0 r have "same_address (boot_device s) pci" by blast
          with False show False by simp
        qed
        have "h \<noteq> h1"
        proof
          assume "h = h1"
          with r h1(2) have "ty = T1" by simp
          with lt nacc show False by simp
        qed
        then have "h1 \<in> set hs" using Cons.prems(2) by auto
        from Cons.IH [OF sub' this inv] r False nacc neq show ?thesis
          by (simp add: scan_handles_Cons)
      qed
    qed
  qed
qed

lemma storage_ord_inj: "storage_ord a = storage_ord b \<Longrightarrow> a = b"
  by (cases a; cases b) simp_all

lemma scan_aborts_on_duplicate:
  assumes "Header_Type (boot_device s) \<noteq> 0"
    and "\<forall>h\<in>set hs. \<forall>pci ty. recognized env fltr h = Some (pci, ty) \<longrightarrow>
           storage_ord (boot_device_type s) \<le> storage_ord ty"
    and "h2 \<in> set hs"
    and "recognized env fltr h2 = Some (p2, boot_device_type s)"
    and "\<not> same_address (boot_device s) p2"
  shows "\<exists>s'. scan_handles env fltr hs s = (Some EFI_UNSUPPORTED, s')
           \<and> cur_storage s' = None \<and> Header_Type (boot_device s') = 0
           \<and> initialized s' = initialized s \<and> locate_calls s' = locate_calls s"
  using assms(2,3)
proof (induction hs)
  case Nil
  then show ?case by simp
next
  case (Cons h hs)
  have low: "\<forall>h\<in>set hs. \<forall>pci ty. recognized env fltr h = Some (pci, ty) \<longrightarrow>
           storage_ord (boot_device_type s) \<le> storage_ord ty"
    using Cons.prems(1) by simp
  show ?case
  proof (cases "h = h2")
    case True
    then show ?thesis
      using assms(1,4,5) by (simp add: scan_handles_Cons)
  next
    case False
    then have in_tl: "h2 \<in> set hs" using Cons.prems(2) by auto
    note IH = Cons.IH [OF low in_tl]
    show ?thesis
    proof (cases "recognized env fltr h")
      case None
      then show ?thesis using IH by (simp add: scan_handles_Cons)
    next
      case (Some r)
      obtain pci ty where r: "recognized env fltr h = Some (pci, ty)"
        using Some by (cases r) auto
      have "storage_ord (boot_device_type s) \<le> storage_ord ty"
        using Cons.prems(1) r by auto
      then show ?thesis
        using IH r assms(1) by (auto simp: scan_handles_Cons)
    qed
  qed
qed

lemma scan_finds_duplicate:
  assumes sub: "set hs \<subseteq> set hs0"
    and wf: "\<forall>h\<in>set hs0. \<forall>pci. handle_pci env h = Some pci \<longrightarrow> Header_Type pci \<noteq> 0"
    and lowest: "\<forall>h\<in>set hs0. \<forall>pci ty. recognized env fltr h = Some (pci, ty) \<longrightarrow>
                   storage_ord T \<le> storage_ord ty"
    and cons: "\<forall>h\<in>set hs0. \<forall>h'\<in>set hs0. \<forall>pci pci' ty'.
                 recognized env fltr h = Some (pci, T) \<and> recognized env fltr h' = Some (pci', ty')
                 \<and> same_address pci pci' \<longrightarrow> ty' = T"
    and dup: "h1 \<in> set hs" "h2 \<in> set hs"
    and r1: "recognized env fltr h1 = Some (p1, T)"
    and r2: "recognized env fltr h2 = Some (p2, T)"
    and ne: "\<not> same_address p1 p2"
    and inv: "(Header_Type (boot_device s) = 0
                \<and> (\<forall>h\<in>set hs0. \<forall>pci. handle_pci env h = Some pci
                      \<longrightarrow> \<not> same_address (boot_device s) pci))
              \<or> (Header_Type (boot_device s) \<noteq> 0
                  \<and> boot_device_type s \<noteq> T
                  \<and> (\<exists>hx\<in>set hs0. recognized env fltr hx
                                      = Some (boot_device s, boot_device_type s)))"
  shows "\<exists>s'. scan_handles env fltr hs s = (Some EFI_UNSUPPORTED, s')
           \<and> cur_storage s' = None \<and> Header_Type (boot_device s') = 0
           \<and> initialized s' = initialized s \<and> locate_calls s' = locate_calls s"
  using sub dup inv
proof (induction hs arbitrary: s)
  case Nil
  then show ?case by simp
next
  case (Cons h hs)
  have h0: "h \<in> set hs0" and sub': "set hs \<subseteq> set hs0"
    using Cons.prems(1) by auto
  note inv = Cons.prems(4)
  have tl_if: "h1 \<in> set hs \<and> h2 \<in> set hs" if "\<forall>pci. recognized env fltr h \<noteq> Some (pci, T)"
    using that r1 r2 Cons.prems(2,3) by auto
  show ?case
  proof (cases "recognized env fltr h")
    case None
    then have "h1 \<in> set hs \<and> h2 \<in> set hs" by (intro tl_if) simp
    with Cons.IH [OF sub' _ _ inv] None show ?thesis
      by (simp add: scan_handles_Cons)
  next
    case (Some r)
    obtain pci ty where r: "recognized env fltr h = Some (pci, ty)"
      using Some by (cases r) auto
    have hp: "handle_pci env h = Some pci"
      using r by (rule recognized_handle_pci)
    have le: "storage_ord T \<le> storage_ord ty"
      using lowest h0 r by blast
    show ?thesis
    proof (cases "same_address (boot_device s) pci")
      case True
      with inv hp h0 obtain hx where hx: "hx \<in> set hs0"
        "recognized env fltr hx = Some (boot_device s, boot_device_type s)"
        and nt: "boot_device_type s \<noteq> T"
        by blast
      have "ty \<noteq> T"
      proof
        assume "ty = T"
        with cons h0 hx r True have "boot_device_type s = T"
          by (metis same_address_sym)
        with nt show False by simp
      qed
      then have "h1 \<in> set hs \<and> h2 \<in> set hs" using r by (intro tl_if) simp
      with Cons.IH [OF sub' _ _ inv] r True show ?thesis
        by (simp add: scan_handles_Cons)
    next
      case False
      show ?thesis
      proof (cases "Header_Type (boot_device s) = 0
                    \<or> storage_ord ty < storage_ord (boot_device_type s)")
        case acc: True
        let ?s1 = "s\<lparr> boot_device := pci, boot_device_type := ty,
                       cur_storage := Some (STORAGE env ty) \<rparr>"
        have step: "scan_handles env fltr (h # hs) s = scan_handles env fltr hs ?s1"
          using r False acc by (simp add: scan_handles_Cons)
        have ht: "Header_Type pci \<noteq> 0" using wf h0 hp by blast
        show ?thesis
        proof (cases "ty = T")
          case True
          have "\<not> same_address pci p1 \<or> \<not> same_address pci p2"
            using ne by (auto simp: same_address_def)
          then obtain hj pj where hj: "hj \<in> set (h # hs)"
            "recognized env fltr hj = Some (pj, T)" "\<not> same_address pci pj"
            using r1 r2 Cons.prems(2,3) by blast
          then have "hj \<noteq> h" using r by (auto simp: same_address_refl)
          then have hj_tl: "hj \<in> set hs" using hj(1) by auto
          have "\<exists>s'. scan_handles env fltr hs ?s1 = (Some EFI_UNSUPPORTED, s')
                 \<and> cur_storage s' = None \<and> Header_Type (boot_device s') = 0
                 \<and> initialized s' = initialized ?s1 \<and> locate_calls s' = locate_calls ?s1"
          proof (rule scan_aborts_on_duplicate [where ?h2.0 = hj and ?p2.0 = pj])
            show "Header_Type (boot_device ?s1) \<noteq> 0" using ht by simp
            show "\<forall>h\<in>set hs. \<forall>pci ty. recognized env fltr h = Some (pci, ty) \<longrightarrow>
                    storage_ord (boot_device_type ?s1) \<le> storage_ord ty"
              using lowest sub' True by auto
            show "hj \<in> set hs" by (rule hj_tl)
            show "recognized env fltr hj = Some (pj, boot_device_type ?s1)"
              using hj(2) True by simp
            show "\<not> same_address (boot_device ?s1) pj" using hj(3) by simp
          qed
          then show ?thesis using step by simp
        next
          case nT: False
          then have tl: "h1 \<in> set hs \<and> h2 \<in> set hs" using r by (intro tl_if) simp
          have inv1: "(Header_Type (boot_device ?s1) = 0
                \<and> (\<forall>h\<in>set hs0. \<forall>pci. handle_pci env h = Some pci
                      \<longrightarrow> \<not> same_address (boot_device ?s1) pci))
              \<or> (Header_Type (boot_device ?s1) \<noteq> 0
                  \<and> boot_device_type ?s1 \<noteq> T
                  \<and> (\<exists>hx\<in>set hs0. recognized env fltr hx
                                      = Some (boot_device ?s1, boot_device_type ?s1)))"
            using ht nT r h0 by auto
          from Cons.IH [OF sub' _ _ inv1] tl step show ?thesis by simp
        qed
      next
        case nacc: False
        show ?thesis
        proof (cases "boot_device_type s = ty")
          case True
          then show ?thesis
            using r False nacc by (simp add: scan_handles_Cons)
        next
          case neq: False
          from nacc inv obtain hx where hx: "hx \<in> set hs0"
            "recognized env fltr hx = Some (boot_device s, boot_device_type s)"
            and nt: "boot_device_type s \<noteq> T"
            by blast
          have "storage_ord T \<le> storage_ord (boot_device_type s)"
            using lowest hx by blast
          then have "storage_ord T < storage_ord (boot_device_type s)"
            using nt storage_ord_inj [of T "boot_device_type s"] by fastforce
          then have "ty \<noteq> T" using nacc by auto
          then have "h1 \<in> set hs \<and> h2 \<in> set hs" using r by (intro tl_if) simp
          with Cons.IH [OF sub' _ _ inv] r False nacc neq show ?thesis
            by (simp add: scan_handles_Cons)
        qed
      qed
    qed
  qed
qed

lemma scan_handles_result:
  "scan_handles env fltr hs s = (r, s') \<Longrightarrow>
     initialized s' = initialized s \<and> locate_calls s' = locate_calls s
     \<and> (r \<noteq> None \<longrightarrow> r = Some EFI_UNSUPPORTED \<and> cur_storage s' = None)"
proof (induction hs arbitrary: s)
  case Nil
  then show ?case by auto
next
  case (Cons h hs)
  show ?case
  proof (cases "recognized env fltr h")
    case None
    with Cons show ?thesis by (simp add: scan_handles_Cons)
  next
    case (Some a)
    obtain pci ty where "recognized env fltr h = Some (pci, ty)"
      using Some by (cases a) auto
    with Cons.prems show ?thesis
      by (auto simp: scan_handles_Cons split: if_splits dest!: Cons.IH)
  qed
qed

lemma identify_boot_device_result:
  assumes "identify_boot_device env fltr s = (r, s')"
  shows "initialized s' = initialized s \<and> locate_calls s' = Suc (locate_calls s)
         \<and> (if cur_storage s' = None then EFI_ERROR r else r = EFI_SUCCESS)"
proof (cases "EFI_ERROR (fst (LocateHandleBuffer env))")
  case True
  with assms show ?thesis by (auto simp: identify_boot_device_def Let_def)
next
  case False
  let ?s2 = "s\<lparr> cur_storage := None, locate_calls := Suc (locate_calls s),
               boot_device := (boot_device s)\<lparr> Header_Type := 0 \<rparr> \<rparr>"
  obtain q s3 where sc: "scan_handles env fltr (snd (LocateHandleBuffer env)) ?s2 = (q, s3)"
    by (cases "scan_handles env fltr (snd (LocateHandleBuffer env)) ?s2") auto
  from scan_handles_result [OF sc]
  have f: "initialized s3 = initialized s" "locate_calls s3 = Suc (locate_calls s)"
    "q \<noteq> None \<longrightarrow> q = Some EFI_UNSUPPORTED \<and> cur_storage s3 = None"
    by simp_all
  from assms False sc have "(r, s') = (case q of Some r \<Rightarrow> (r, s3)
       | None \<Rightarrow> if cur_storage s3 = None then (EFI_UNSUPPORTED, s3) else (EFI_SUCCESS, s3))"
    by (simp add: identify_boot_device_def Let_def)
  with f show ?thesis
    by (cases q) (auto simp: EFI_ERROR_UNSUPPORTED split: if_splits)
qed

lemma valid_storage_result:
  assumes "valid_storage env s = (b, s')"
  shows "initialized s'" and "b \<Longrightarrow> cur_storage s' \<noteq> None"
    and "\<not> b \<Longrightarrow> cur_storage s' = None \<or> Header_Type (boot_device s') = 0"
proof -
  obtain r t where id: "identify_boot_device env STORAGE_ALL (s\<lparr> initialized := True \<rparr>) = (r, t)"
    by (cases "identify_boot_device env STORAGE_ALL (s\<lparr> initialized := True \<rparr>)") auto
  note res = identify_boot_device_result [OF id]
  from assms have eq: "(b, s') = (if \<not> initialized s then (\<not> EFI_ERROR r, t)
          else (Header_Type (boot_device s) \<noteq> 0 \<and> cur_storage s \<noteq> None, s))"
    using id by (auto simp: valid_storage_def Let_def split: if_splits)
  show "initialized s'" using eq res by (auto split: if_splits)
  show "cur_storage s' \<noteq> None" if b using that eq res by (auto split: if_splits)
  show "cur_storage s' = None \<or> Header_Type (boot_device s') = 0" if "\<not> b"
    using that eq res by (auto simp: not_EFI_ERROR_SUCCESS split: if_splits)
qed

section \<open>Properties of the fill loop\<close>

lemma writes_succeed_ok_bio: "writes_succeed ok_bio"
  by (simp add: writes_succeed_def ok_bio_def not_EFI_ERROR_SUCCESS)

lemma fill_with_loop_stuck:
  assumes "fill_with_loop bio start end pattern pb lba prev progress dev writes = Some y"
  shows "\<not> (writes_succeed bio \<and> lba \<le> end \<and> (pb = 0 \<or> end = - 1))"
proof (rule fill_with_loop.raw_induct
    [where P = "\<lambda>bio start end pattern pb lba prev progress dev writes y.
                  \<not> (writes_succeed bio \<and> lba \<le> end \<and> (pb = 0 \<or> end = - 1))",
     OF _ assms], goal_cases)
  case (1 f bio start "end" pattern pb lba prev progress dev writes y)
  show ?case
  proof
    assume a: "writes_succeed bio \<and> lba \<le> end \<and> (pb = 0 \<or> end = - 1)"
    then have ok: "\<And>dev m lba n buf. \<not> EFI_ERROR (fst (WriteBlocks bio dev m lba n buf))"
      by (simp add: writes_succeed_def)
    from a have nxt: "lba + pb \<le> end" by auto
    from 1(2) a ok obtain prev' progress' dev' writes' where
      "f bio start end pattern pb (lba + pb) prev' progress' dev' writes' = Some y"
      by (simp add: Let_def)
    from 1(1) [OF this] a nxt show False by simp
  qed
qed

lemma fill_with_loop_never_returns:
  "writes_succeed bio \<Longrightarrow> lba \<le> end \<Longrightarrow> pb = 0 \<or> end = - 1 \<Longrightarrow>
     fill_with_loop bio start end pattern pb lba prev progress dev writes = None"
  using fill_with_loop_stuck [of bio start "end" pattern pb lba prev progress dev writes]
  by (cases "fill_with_loop bio start end pattern pb lba prev progress dev writes") auto

lemma length_chunks: "length (chunks k lba e pb) = k"
  by (induction k arbitrary: lba) simp_all

lemma nth_chunks:
  "j < k \<Longrightarrow> chunks k lba e pb ! j = (lba + j * pb, min pb (e + 1 - (lba + j * pb)))"
proof (induction k arbitrary: lba j)
  case 0
  then show ?case by simp
next
  case (Suc k)
  show ?case
  proof (cases j)
    case 0
    then show ?thesis by simp
  next
    case (Suc i)
    with Suc.prems have "i < k" by simp
    from Suc.IH [OF this, of "lba + pb"] Suc show ?thesis
      by (simp add: add.assoc)
  qed
qed

lemma fill_size:
  fixes lba e pb :: "64 word"
  assumes "lba \<le> e" and "unat e + unat pb < 2 ^ 64" and "pb \<noteq> 0"
  shows "unat (if lba + pb > e + 1 then e - lba + 1 else pb)
           = min (unat pb) (unat e + 1 - unat lba)"
    and "unat (lba + pb) = unat lba + unat pb"
proof -
  have le: "unat lba \<le> unat e" using assms(1) by (simp add: word_le_nat_alt)
  have pos: "0 < unat pb" using assms(3) by (simp add: unat_gt_0)
  show sum: "unat (lba + pb) = unat lba + unat pb"
    using le assms(2) by (intro unat_add_lem [THEN iffD1]) simp
  have e1: "unat (e + 1) = unat e + 1"
    using unat_add_lem [of e 1] pos assms(2) by simp
  have sub: "unat (e - lba) = unat e - unat lba"
    using assms(1) by (simp add: unat_sub)
  have sub1: "unat (e - lba + 1) = unat e - unat lba + 1"
  proof -
    have "unat e + unat pb < 18446744073709551616" using assms(2) by simp
    then have "unat e - unat lba < 18446744073709551615" using pos by arith
    then show ?thesis using unat_add_lem [of "e - lba" 1] sub by simp
  qed
  show "unat (if lba + pb > e + 1 then e - lba + 1 else pb)
           = min (unat pb) (unat e + 1 - unat lba)"
    using sum e1 sub1 le by (auto simp: word_less_nat_alt)
qed

lemma writes_succeed_writes_ok: "writes_succeed bio \<Longrightarrow> writes_ok bio pattern dev ws"
  by (induction ws arbitrary: dev) (simp_all add: writes_succeed_def write_step_def)

lemma fill_with_loop_run:
  assumes nz: "pb \<noteq> 0" and nov: "unat e + unat pb < 2 ^ 64"
    and ok: "writes_ok bio pattern dev
               (map (\<lambda>(a, n). (of_nat a, of_nat n))
                  (chunks ((unat e + unat pb - unat lba) div unat pb)
                     (unat lba) (unat e) (unat pb)))"
  shows "fill_with_loop bio start e pattern pb lba prev progress dev writes
           = Some (EFI_SUCCESS,
                   after_writes bio pattern dev
                     (map (\<lambda>(a, n). (of_nat a, of_nat n))
                        (chunks ((unat e + unat pb - unat lba) div unat pb)
                           (unat lba) (unat e) (unat pb))),
                   writes @ map (\<lambda>(a, n). (of_nat a, of_nat n))
                              (chunks ((unat e + unat pb - unat lba) div unat pb)
                                 (unat lba) (unat e) (unat pb)))"
  using ok
proof (induction "unat e + 1 - unat lba" arbitrary: lba prev progress dev writes
       rule: less_induct)
  case less
  have pos: "0 < unat pb" using nz by (simp add: unat_gt_0)
  show ?case
  proof (cases "lba \<le> e")
    case False
    then have "unat e < unat lba" by (simp add: word_le_nat_alt)
    then have "(unat e + unat pb - unat lba) div unat pb = 0"
      using pos by (intro div_less) simp
    then show ?thesis using False
      by (subst fill_with_loop.simps) simp
  next
    case True
    define size where "size = (if lba + pb > e + 1 then e - lba + 1 else pb)"
    define r where "r = WriteBlocks bio dev (MediaId bio) lba (ucast (BlockSize bio) * size) pattern"
    define k' where "k' = (unat e + unat pb - unat (lba + pb)) div unat pb"
    define rest :: "(64 word \<times> 64 word) list"
      where "rest = map (\<lambda>(a, n). (of_nat a, of_nat n))
                      (chunks k' (unat (lba + pb)) (unat e) (unat pb))"
    have le: "unat lba \<le> unat e" using True by (simp add: word_le_nat_alt)
    have sz: "unat size = min (unat pb) (unat e + 1 - unat lba)"
      and sum: "unat (lba + pb) = unat lba + unat pb"
      using fill_size [OF True nov nz] by (simp_all add: size_def)
    have k: "(unat e + unat pb - unat lba) div unat pb = Suc k'"
      unfolding k'_def using sum le pos by (simp add: le_div_geq)
    have hd: "(of_nat (unat lba), of_nat (min (unat pb) (unat e + 1 - unat lba))) = (lba, size)"
      using sz [symmetric] by simp
    have cs: "map (\<lambda>(a, n). (of_nat a, of_nat n))
                (chunks ((unat e + unat pb - unat lba) div unat pb)
                   (unat lba) (unat e) (unat pb)) = (lba, size) # rest"
      unfolding k chunks.simps list.map prod.case hd rest_def sum ..
    have ws: "write_step bio pattern dev (lba, size) = r"
      by (simp add: write_step_def r_def)
    from less.prems have noerr: "\<not> EFI_ERROR (fst r)"
      and ok': "writes_ok bio pattern (snd r) rest"
      unfolding cs by (simp_all add: ws)
    have step: "fill_with_loop bio start e pattern pb lba prev progress dev writes
         = fill_with_loop bio start e pattern pb (lba + pb) progress
             (percent5 (lba + pb - start) (e - start)) (snd r) (writes @ [(lba, size)])"
      using True noerr
      by (subst fill_with_loop.simps) (simp add: Let_def size_def r_def)
    have "unat e + 1 - unat (lba + pb) < unat e + 1 - unat lba"
      using sum pos le by simp
    from less.hyps [OF this, of "snd r" progress
        "percent5 (lba + pb - start) (e - start)" "writes @ [(lba, size)]"] ok'
    have rec: "fill_with_loop bio start e pattern pb (lba + pb) progress
             (percent5 (lba + pb - start) (e - start)) (snd r) (writes @ [(lba, size)])
         = Some (EFI_SUCCESS, after_writes bio pattern (snd r) rest,
                 (writes @ [(lba, size)]) @ rest)"
      by (simp add: rest_def k'_def)
    show ?thesis
      unfolding step rec cs by (simp add: ws)
  qed
qed

lemma unat_block_bytes:
  fixes bs :: "32 word" and n :: "64 word"
  assumes "unat bs * unat n < 2 ^ 64"
  shows "unat (ucast bs * n :: 64 word) = unat bs * unat n"
proof -
  have "uint (ucast bs :: 64 word) = uint bs"
    by (rule uint_up_ucast) (simp add: is_up)
  then have "unat (ucast bs :: 64 word) = unat bs"
    by (metis unat_eq_nat_uint)
  then show ?thesis
    using assms unat_mult_lem [of "ucast bs :: 64 word" n] by simp
qed

lemma fill_with_loop_returns:
  assumes nz: "pb \<noteq> 0" and nov: "unat e + unat pb < 2 ^ 64"
  shows "\<exists>r. fill_with_loop bio start e pattern pb lba prev progress dev writes = Some r"
proof (induction "unat e + 1 - unat lba" arbitrary: lba prev progress dev writes
       rule: less_induct)
  case less
  have pos: "0 < unat pb" using nz by (simp add: unat_gt_0)
  show ?case
  proof (cases "lba \<le> e")
    case False
    then show ?thesis by (subst fill_with_loop.simps) simp
  next
    case True
    have le: "unat lba \<le> unat e" using True by (simp add: word_le_nat_alt)
    have "unat (lba + pb) = unat lba + unat pb"
      using fill_size(2) [OF True nov nz] .
    then have "unat e + 1 - unat (lba + pb) < unat e + 1 - unat lba"
      using pos le by simp
    note IH = less [OF this]
    show ?thesis
      using True IH by (subst fill_with_loop.simps) (simp add: Let_def)
  qed
qed

lemma fill_with_loop_stuck_error:
  assumes "fill_with_loop bio start e pattern pb lba prev progress dev writes = Some y"
  shows "pb = 0 \<and> lba \<le> e \<longrightarrow> EFI_ERROR (fst y)"
proof (rule fill_with_loop.raw_induct
    [where P = "\<lambda>bio start e pattern pb lba prev progress dev writes y.
                  pb = 0 \<and> lba \<le> e \<longrightarrow> EFI_ERROR (fst y)",
     OF _ assms], goal_cases)
  case (1 f bio start e pattern pb lba prev progress dev writes y)
  show ?case
  proof
    assume a: "pb = 0 \<and> lba \<le> e"
    show "EFI_ERROR (fst y)"
    proof (cases "EFI_ERROR (fst (WriteBlocks bio dev (MediaId bio) lba
                     (ucast (BlockSize bio)
                        * (if lba + pb > e + 1 then e - lba + 1 else pb)) pattern))")
      case True
      with 1(2) a show ?thesis by (auto simp: Let_def)
    next
      case False
      with 1(2) a obtain prev' progress' dev' writes' where
        "f bio start e pattern pb (lba + pb) prev' progress' dev' writes' = Some y"
        by (auto simp: Let_def)
      from 1(1) [OF this] a show ?thesis by simp
    qed
  qed
qed

lemma unat_of_nat_64: "n < 2 ^ 64 \<Longrightarrow> unat (of_nat n :: 64 word) = n"
  by (simp add: unat_of_nat)

section \<open>The boot device cache: lazy identification\<close>

text \<open>
  Claim C1. Once get_boot_device has triggered the lazy identification scan, the cache is
  recorded as initialized, and every later get_boot_device call performs no new device
  enumeration and returns the identical cached address; after a successful
  identify_boot_device a following get_boot_device runs no new enumeration.

  The code does not do this: get_boot_device tests \<open>initialized\<close> but never sets it (only
  valid_storage and storage_set_boot_device do), and identify_boot_device does not set it
  either. Evaluated on a platform with a single eMMC controller at Function 0, Device 28,
  starting from the static initial values: the first get_boot_device enumerates once,
  returns that address and leaves \<open>initialized\<close> false; the second call enumerates again
  and returns NULL, because the rescan skips the controller whose Function and Device are
  still in \<open>boot_device\<close>; and a get_boot_device after a successful
  identify_boot_device enumerates a second time.
\<close>

theorem get_boot_device_rescans:
  "fst (get_boot_device one_emmc initial_state) = Some (pci_node 0 28)
   \<and> \<not> initialized (snd (get_boot_device one_emmc initial_state))
   \<and> locate_calls (snd (get_boot_device one_emmc initial_state)) = 1
   \<and> fst (get_boot_device one_emmc (snd (get_boot_device one_emmc initial_state))) = None
   \<and> locate_calls (snd (get_boot_device one_emmc
                          (snd (get_boot_device one_emmc initial_state)))) = 2
   \<and> fst (identify_boot_device one_emmc STORAGE_ALL initial_state) = EFI_SUCCESS
   \<and> locate_calls (snd (get_boot_device one_emmc
                          (snd (identify_boot_device one_emmc STORAGE_ALL initial_state)))) = 2"
  by (simp add: one_emmc_def example_defs)

section \<open>Ambiguity between devices of one technology\<close>

text \<open>
  Claim C2, amended. Take an enumeration that succeeds, whose PCI nodes have a non-zero
  header type, and none of whose devices has the Function and Device values left in
  \<open>boot_device\<close>. If two handles with different bus addresses are both recognized as
  technology \<open>T\<close>, no handle is recognized as a technology of lower ordinal than \<open>T\<close>,
  and every recognized handle that shares the bus address of a handle recognized as \<open>T\<close>
  is itself recognized as \<open>T\<close>, then identify_boot_device returns EFI_UNSUPPORTED and
  afterwards the cached address is the sentinel (header type 0) and no descriptor is
  selected. The hypotheses speak of the set of enumerated handles only, so the result
  holds for every enumeration order, and technologies of higher ordinal may be present.
\<close>

theorem duplicate_technology_unsupported:
  assumes ok: "\<not> EFI_ERROR (fst (LocateHandleBuffer env))"
    and wf: "\<forall>h\<in>set (snd (LocateHandleBuffer env)). \<forall>pci.
               handle_pci env h = Some pci \<longrightarrow> Header_Type pci \<noteq> 0"
    and fresh: "\<forall>h\<in>set (snd (LocateHandleBuffer env)). \<forall>pci.
               handle_pci env h = Some pci \<longrightarrow> \<not> same_address (boot_device s) pci"
    and dup: "h1 \<in> set (snd (LocateHandleBuffer env))" "h2 \<in> set (snd (LocateHandleBuffer env))"
    and r1: "recognized env fltr h1 = Some (p1, T)"
    and r2: "recognized env fltr h2 = Some (p2, T)"
    and ne: "\<not> same_address p1 p2"
    and lowest: "\<forall>h\<in>set (snd (LocateHandleBuffer env)). \<forall>pci ty.
               recognized env fltr h = Some (pci, ty) \<longrightarrow> storage_ord T \<le> storage_ord ty"
    and cons: "\<forall>h\<in>set (snd (LocateHandleBuffer env)).
               \<forall>h'\<in>set (snd (LocateHandleBuffer env)). \<forall>pci pci' ty'.
                 recognized env fltr h = Some (pci, T) \<and> recognized env fltr h' = Some (pci', ty')
                 \<and> same_address pci pci' \<longrightarrow> ty' = T"
  shows "\<exists>s'. identify_boot_device env fltr s = (EFI_UNSUPPORTED, s')
           \<and> cur_storage s' = None \<and> Header_Type (boot_device s') = 0"
proof -
  let ?hs = "snd (LocateHandleBuffer env)"
  let ?s2 = "s\<lparr> cur_storage := None, locate_calls := Suc (locate_calls s),
               boot_device := (boot_device s)\<lparr> Header_Type := 0 \<rparr> \<rparr>"
  have inv: "(Header_Type (boot_device ?s2) = 0
                \<and> (\<forall>h\<in>set ?hs. \<forall>pci. handle_pci env h = Some pci
                      \<longrightarrow> \<not> same_address (boot_device ?s2) pci))
              \<or> (Header_Type (boot_device ?s2) \<noteq> 0
                  \<and> boot_device_type ?s2 \<noteq> T
                  \<and> (\<exists>hx\<in>set ?hs. recognized env fltr hx
                                      = Some (boot_device ?s2, boot_device_type ?s2)))"
    using fresh by (simp add: same_address_def)
  from scan_finds_duplicate [OF subset_refl wf lowest cons dup r1 r2 ne inv]
  obtain s' where sc: "scan_handles env fltr ?hs ?s2 = (Some EFI_UNSUPPORTED, s')"
    and res: "cur_storage s' = None" "Header_Type (boot_device s') = 0"
    by blast
  have "identify_boot_device env fltr s = (EFI_UNSUPPORTED, s')"
    using ok sc by (simp add: identify_boot_device_def Let_def)
  then show ?thesis using res by blast
qed

text \<open>
  The theorem applied to the enumeration UFS (Device 2), SATA (Device 4), UFS (Device 3)
  from the initial state: the scan aborts with EFI_UNSUPPORTED and clears the cache.
\<close>

theorem duplicate_technology_unsupported_witness:
  "identify_boot_device ufs_sata_ufs STORAGE_ALL initial_state
     = (EFI_UNSUPPORTED,
        initial_state \<lparr> boot_device := (pci_node 0 2) \<lparr> Header_Type := 0 \<rparr>,
                        boot_device_type := STORAGE_UFS, locate_calls := 1 \<rparr>)"
proof -
  have "\<exists>s'. identify_boot_device ufs_sata_ufs STORAGE_ALL initial_state = (EFI_UNSUPPORTED, s')
           \<and> cur_storage s' = None \<and> Header_Type (boot_device s') = 0"
  proof (rule duplicate_technology_unsupported
           [where ?h1.0 = 2 and ?h2.0 = 3 and ?p1.0 = "pci_node 0 2" and ?p2.0 = "pci_node 0 3"
              and T = STORAGE_UFS])
    show "\<not> EFI_ERROR (fst (LocateHandleBuffer ufs_sata_ufs))"
      by (simp add: ufs_sata_ufs_def example_defs)
    show "\<forall>h\<in>set (snd (LocateHandleBuffer ufs_sata_ufs)). \<forall>pci.
            handle_pci ufs_sata_ufs h = Some pci \<longrightarrow> Header_Type pci \<noteq> 0"
      by (simp add: ufs_sata_ufs_def example_defs)
    show "\<forall>h\<in>set (snd (LocateHandleBuffer ufs_sata_ufs)). \<forall>pci.
            handle_pci ufs_sata_ufs h = Some pci
            \<longrightarrow> \<not> same_address (boot_device initial_state) pci"
      by (simp add: ufs_sata_ufs_def example_defs)
    show "2 \<in> set (snd (LocateHandleBuffer ufs_sata_ufs))"
      and "3 \<in> set (snd (LocateHandleBuffer ufs_sata_ufs))"
      by (simp_all add: ufs_sata_ufs_def example_defs)
    show "recognized ufs_sata_ufs STORAGE_ALL 2 = Some (pci_node 0 2, STORAGE_UFS)"
      and "recognized ufs_sata_ufs STORAGE_ALL 3 = Some (pci_node 0 3, STORAGE_UFS)"
      by (simp_all add: ufs_sata_ufs_def example_defs)
    show "\<not> same_address (pci_node 0 2) (pci_node 0 3)"
      by (simp add: example_defs)
    show "\<forall>h\<in>set (snd (LocateHandleBuffer ufs_sata_ufs)). \<forall>pci ty.
            recognized ufs_sata_ufs STORAGE_ALL h = Some (pci, ty)
            \<longrightarrow> storage_ord STORAGE_UFS \<le> storage_ord ty"
      by (simp add: ufs_sata_ufs_def example_defs)
    show "\<forall>h\<in>set (snd (LocateHandleBuffer ufs_sata_ufs)).
            \<forall>h'\<in>set (snd (LocateHandleBuffer ufs_sata_ufs)). \<forall>pci pci' ty'.
              recognized ufs_sata_ufs STORAGE_ALL h = Some (pci, STORAGE_UFS)
              \<and> recognized ufs_sata_ufs STORAGE_ALL h' = Some (pci', ty')
              \<and> same_address pci pci' \<longrightarrow> ty' = STORAGE_UFS"
      by (simp add: ufs_sata_ufs_def example_defs)
  qed
  then show ?thesis
    by (simp add: ufs_sata_ufs_def example_defs)
qed

text \<open>
  Claim C2 as stated fails when a technology of lower ordinal is also present: with eMMC on
  Device 1 and SATA on both Device 2 and Device 3, the eMMC controller is accepted first,
  each SATA controller is compared with eMMC only, and identify_boot_device succeeds with
  the eMMC descriptor selected.
\<close>

theorem duplicate_with_higher_priority_succeeds:
  "recognized emmc_sata_sata STORAGE_ALL 2 = Some (pci_node 0 2, STORAGE_SATA)
   \<and> recognized emmc_sata_sata STORAGE_ALL 3 = Some (pci_node 0 3, STORAGE_SATA)
   \<and> \<not> same_address (pci_node 0 2) (pci_node 0 3)
   \<and> fst (identify_boot_device emmc_sata_sata STORAGE_ALL initial_state) = EFI_SUCCESS
   \<and> boot_device (snd (identify_boot_device emmc_sata_sata STORAGE_ALL initial_state))
       = pci_node 0 1
   \<and> cur_storage (snd (identify_boot_device emmc_sata_sata STORAGE_ALL initial_state))
       = Some (STORAGE emmc_sata_sata STORAGE_EMMC)"
  by (simp add: emmc_sata_sata_def example_defs)

section \<open>Priority between technologies\<close>

text \<open>
  Claim C3, amended. Take an enumeration that succeeds, whose PCI nodes have a non-zero
  header type, and none of whose devices has the Function and Device values left in
  \<open>boot_device\<close>. If a handle is recognized as technology \<open>T1\<close> at bus address
  \<open>pci1\<close>, every recognized handle at that bus address is recognized as \<open>T1\<close>, every
  recognized handle at another bus address is recognized as a technology of strictly
  higher ordinal than \<open>T1\<close>, and no technology is recognized at two different bus
  addresses, then identify_boot_device returns EFI_SUCCESS and the cache holds the
  descriptor of \<open>T1\<close>, the type \<open>T1\<close> and the PCI node of a handle recognized as
  \<open>T1\<close>, at the bus address \<open>pci1\<close>. The hypotheses speak of the set of enumerated
  handles only, so the result holds for every enumeration order.
\<close>

theorem priority_selects_lowest_ordinal:
  assumes ok: "\<not> EFI_ERROR (fst (LocateHandleBuffer env))"
    and wf: "\<forall>h\<in>set (snd (LocateHandleBuffer env)). \<forall>pci.
               handle_pci env h = Some pci \<longrightarrow> Header_Type pci \<noteq> 0"
    and fresh: "\<forall>h\<in>set (snd (LocateHandleBuffer env)). \<forall>pci.
               handle_pci env h = Some pci \<longrightarrow> \<not> same_address (boot_device s) pci"
    and h1: "h1 \<in> set (snd (LocateHandleBuffer env))"
    and r1: "recognized env fltr h1 = Some (pci1, T1)"
    and prio: "\<forall>h\<in>set (snd (LocateHandleBuffer env)). \<forall>pci ty.
               recognized env fltr h = Some (pci, ty) \<longrightarrow>
                 (if same_address pci pci1 then ty = T1
                  else storage_ord T1 < storage_ord ty)"
    and uniq: "\<forall>h\<in>set (snd (LocateHandleBuffer env)).
               \<forall>h'\<in>set (snd (LocateHandleBuffer env)). \<forall>pci pci' ty.
                 recognized env fltr h = Some (pci, ty) \<and> recognized env fltr h' = Some (pci', ty)
                 \<longrightarrow> same_address pci pci'"
  shows "\<exists>s'. identify_boot_device env fltr s = (EFI_SUCCESS, s')
           \<and> cur_storage s' = Some (STORAGE env T1) \<and> boot_device_type s' = T1
           \<and> same_address (boot_device s') pci1 \<and> Header_Type (boot_device s') \<noteq> 0
           \<and> (\<exists>h\<in>set (snd (LocateHandleBuffer env)).
                 recognized env fltr h = Some (boot_device s', T1))"
proof -
  let ?hs = "snd (LocateHandleBuffer env)"
  let ?s2 = "s\<lparr> cur_storage := None, locate_calls := Suc (locate_calls s),
               boot_device := (boot_device s)\<lparr> Header_Type := 0 \<rparr> \<rparr>"
  have inv: "(Header_Type (boot_device ?s2) = 0
                \<and> (\<forall>h\<in>set ?hs. \<forall>pci. handle_pci env h = Some pci
                      \<longrightarrow> \<not> same_address (boot_device ?s2) pci))
              \<or> (Header_Type (boot_device ?s2) \<noteq> 0
                  \<and> storage_ord T1 < storage_ord (boot_device_type ?s2)
                  \<and> (\<exists>hx\<in>set ?hs. recognized env fltr hx
                                      = Some (boot_device ?s2, boot_device_type ?s2)))"
    using fresh by (simp add: same_address_def)
  from scan_selects_best [OF subset_refl wf prio uniq h1 r1 inv]
  obtain s' where sc: "scan_handles env fltr ?hs ?s2 = (None, s')"
    and res: "cur_storage s' = Some (STORAGE env T1)" "boot_device_type s' = T1"
    and hx: "\<exists>h\<in>set ?hs. recognized env fltr h = Some (boot_device s', T1)"
    by blast
  have run: "identify_boot_device env fltr s = (EFI_SUCCESS, s')"
    using ok sc res by (simp add: identify_boot_device_def Let_def)
  from hx obtain h where h: "h \<in> set ?hs" "recognized env fltr h = Some (boot_device s', T1)"
    by blast
  have "same_address (boot_device s') pci1"
    using prio h by (metis storage_ord_inj less_irrefl)
  moreover have "Header_Type (boot_device s') \<noteq> 0"
    using wf h(1) recognized_handle_pci [OF h(2)] by blast
  ultimately show ?thesis using run res hx by blast
qed

text \<open>
  The theorem applied to UFS on Device 2 and SATA on Device 3, in both enumeration orders,
  from the initial state: UFS is committed each time.
\<close>

theorem priority_selects_lowest_ordinal_witness:
  "storage_ord STORAGE_UFS < storage_ord STORAGE_SATA
   \<and> recognized sata_then_ufs STORAGE_ALL 3 = Some (pci_node 0 3, STORAGE_SATA)
   \<and> recognized sata_then_ufs STORAGE_ALL 2 = Some (pci_node 0 2, STORAGE_UFS)
   \<and> fst (identify_boot_device sata_then_ufs STORAGE_ALL initial_state) = EFI_SUCCESS
   \<and> boot_device (snd (identify_boot_device sata_then_ufs STORAGE_ALL initial_state))
        = pci_node 0 2
   \<and> boot_device_type (snd (identify_boot_device sata_then_ufs STORAGE_ALL initial_state))
        = STORAGE_UFS
   \<and> cur_storage (snd (identify_boot_device sata_then_ufs STORAGE_ALL initial_state))
        = Some (STORAGE sata_then_ufs STORAGE_UFS)
   \<and> fst (identify_boot_device ufs_then_sata STORAGE_ALL initial_state) = EFI_SUCCESS
   \<and> boot_device (snd (identify_boot_device ufs_then_sata STORAGE_ALL initial_state))
        = pci_node 0 2
   \<and> boot_device_type (snd (identify_boot_device ufs_then_sata STORAGE_ALL initial_state))
        = STORAGE_UFS
   \<and> cur_storage (snd (identify_boot_device ufs_then_sata STORAGE_ALL initial_state))
        = Some (STORAGE ufs_then_sata STORAGE_UFS)"
proof -
  have a: "\<exists>s'. identify_boot_device sata_then_ufs STORAGE_ALL initial_state = (EFI_SUCCESS, s')
           \<and> cur_storage s' = Some (STORAGE sata_then_ufs STORAGE_UFS)
           \<and> boot_device_type s' = STORAGE_UFS
           \<and> same_address (boot_device s') (pci_node 0 2) \<and> Header_Type (boot_device s') \<noteq> 0
           \<and> (\<exists>h\<in>set (snd (LocateHandleBuffer sata_then_ufs)).
                 recognized sata_then_ufs STORAGE_ALL h = Some (boot_device s', STORAGE_UFS))"
    by (rule priority_selects_lowest_ordinal [where ?h1.0 = 2])
       (simp_all add: sata_then_ufs_def example_defs)
  have b: "\<exists>s'. identify_boot_device ufs_then_sata STORAGE_ALL initial_state = (EFI_SUCCESS, s')
           \<and> cur_storage s' = Some (STORAGE ufs_then_sata STORAGE_UFS)
           \<and> boot_device_type s' = STORAGE_UFS
           \<and> same_address (boot_device s') (pci_node 0 2) \<and> Header_Type (boot_device s') \<noteq> 0
           \<and> (\<exists>h\<in>set (snd (LocateHandleBuffer ufs_then_sata)).
                 recognized ufs_then_sata STORAGE_ALL h = Some (boot_device s', STORAGE_UFS))"
    by (rule priority_selects_lowest_ordinal [where ?h1.0 = 2])
       (simp_all add: ufs_then_sata_def example_defs)
  from a b show ?thesis
    by (simp add: sata_then_ufs_def ufs_then_sata_def example_defs)
qed

text \<open>
  Claim C3 as stated fails when the enumeration also holds a device of a third technology
  with a lower ordinal than both: with eMMC on Device 1, UFS on Device 2 and SATA on
  Device 3, where no technology probes true on two devices, the cache ends with eMMC and
  not with UFS.
\<close>

theorem third_technology_wins:
  "recognized emmc_ufs_sata STORAGE_ALL 2 = Some (pci_node 0 2, STORAGE_UFS)
   \<and> recognized emmc_ufs_sata STORAGE_ALL 3 = Some (pci_node 0 3, STORAGE_SATA)
   \<and> recognized emmc_ufs_sata STORAGE_ALL 1 = Some (pci_node 0 1, STORAGE_EMMC)
   \<and> \<not> same_address (pci_node 0 2) (pci_node 0 3)
   \<and> storage_ord STORAGE_UFS < storage_ord STORAGE_SATA
   \<and> fst (identify_boot_device emmc_ufs_sata STORAGE_ALL initial_state) = EFI_SUCCESS
   \<and> boot_device_type (snd (identify_boot_device emmc_ufs_sata STORAGE_ALL initial_state))
       = STORAGE_EMMC
   \<and> boot_device (snd (identify_boot_device emmc_ufs_sata STORAGE_ALL initial_state))
       = pci_node 0 1"
  by (simp add: emmc_ufs_sata_def example_defs)

section \<open>The duplicate-address skip\<close>

text \<open>
  Claim C4. Every identify_boot_device scan resets the cached bus address before the loop
  starts, so a device is skipped only when its address equals an address accepted earlier
  in the same scan pass; an address left over from a previous scan never causes a device to
  be skipped.

  The code does not do this: the reset before the loop clears \<open>Header.Type\<close> only, and
  the skip test compares \<open>Function\<close> and \<open>Device\<close> without looking at
  \<open>Header.Type\<close>. Evaluated on a platform with a single eMMC controller at Function 0,
  Device 28: the first scan selects it; a second scan of the same enumeration skips it
  because its address is still in \<open>boot_device\<close>, finds nothing and returns
  EFI_UNSUPPORTED with the cache cleared.
\<close>

theorem identify_boot_device_stale_skip:
  "fst (identify_boot_device one_emmc STORAGE_ALL initial_state) = EFI_SUCCESS
   \<and> boot_device (snd (identify_boot_device one_emmc STORAGE_ALL initial_state)) = pci_node 0 28
   \<and> handle_pci one_emmc 28 = Some (pci_node 0 28)
   \<and> recognized one_emmc STORAGE_ALL 28 = Some (pci_node 0 28, STORAGE_EMMC)
   \<and> identify_boot_device one_emmc STORAGE_ALL
        (snd (identify_boot_device one_emmc STORAGE_ALL initial_state))
      = (EFI_UNSUPPORTED,
         (snd (identify_boot_device one_emmc STORAGE_ALL initial_state))
           \<lparr> cur_storage := None,
             boot_device := (pci_node 0 28) \<lparr> Header_Type := 0 \<rparr>,
             locate_calls := 2 \<rparr>)"
  by (simp add: one_emmc_def example_defs)

section \<open>Descriptor and address are set together\<close>

text \<open>
  Claim C5. After every exposed operation returns, including the error path of a failed
  device enumeration, the cached descriptor is set if and only if the cached bus address
  is set and not the sentinel.

  The code does not do this on the failed enumeration path: identify_boot_device clears
  \<open>cur_storage\<close> before calling LocateHandleBuffer and returns at once when that call
  fails, before the line that resets \<open>boot_device.Header.Type\<close>. Evaluated after
  storage_set_boot_device has pinned an eMMC controller at Function 0, Device 28: an
  identify_boot_device whose enumeration fails leaves no descriptor while the cached
  address is still that controller's, with a non-zero header type.
\<close>

theorem identify_boot_device_failed_enumeration:
  "fst (storage_set_boot_device failed_enumeration 28 initial_state) = EFI_SUCCESS
   \<and> EFI_ERROR (fst (identify_boot_device failed_enumeration STORAGE_ALL
                       (snd (storage_set_boot_device failed_enumeration 28 initial_state))))
   \<and> cur_storage (snd (identify_boot_device failed_enumeration STORAGE_ALL
                       (snd (storage_set_boot_device failed_enumeration 28 initial_state)))) = None
   \<and> boot_device (snd (identify_boot_device failed_enumeration STORAGE_ALL
                       (snd (storage_set_boot_device failed_enumeration 28 initial_state))))
       = pci_node 0 28
   \<and> Header_Type (pci_node 0 28) \<noteq> 0"
  by (simp add: failed_enumeration_def example_defs)

section \<open>storage_set_boot_device\<close>

text \<open>
  Claim C6. storage_set_boot_device fails with EFI_UNSUPPORTED when the handle yields no
  device path or a device path with no PCI node, and fails when no registered descriptor
  probes true for the path; whenever it fails the state (address, type, descriptor and the
  initialized flag) is unchanged; on success it commits the new descriptor, type and
  address together and sets \<open>initialized\<close>, and in no case does it enumerate devices.
\<close>

theorem set_boot_device_commit:
  "(DevicePathFromHandle env device = None
      \<longrightarrow> storage_set_boot_device env device s = (EFI_UNSUPPORTED, s))
   \<and> (\<forall>dp. DevicePathFromHandle env device = Some dp \<and> get_pci_device_path env dp = None
      \<longrightarrow> storage_set_boot_device env device s = (EFI_UNSUPPORTED, s))
   \<and> (\<forall>dp. DevicePathFromHandle env device = Some dp
        \<and> (\<forall>t\<in>{STORAGE_EMMC, STORAGE_UFS, STORAGE_SDCARD, STORAGE_SATA}.
              \<not> probe (STORAGE env t) dp)
      \<longrightarrow> storage_set_boot_device env device s = (EFI_UNSUPPORTED, s))
   \<and> (EFI_ERROR (fst (storage_set_boot_device env device s))
      \<longrightarrow> storage_set_boot_device env device s = (EFI_UNSUPPORTED, s))
   \<and> (\<not> EFI_ERROR (fst (storage_set_boot_device env device s))
      \<longrightarrow> (\<exists>dp pci ty. DevicePathFromHandle env device = Some dp
             \<and> get_pci_device_path env dp = Some pci
             \<and> identify_storage env dp STORAGE_ALL = Inr (STORAGE env ty, ty)
             \<and> storage_set_boot_device env device s
                 = (EFI_SUCCESS,
                    s\<lparr> cur_storage := Some (STORAGE env ty), boot_device_type := ty,
                       initialized := True, boot_device := pci \<rparr>)))
   \<and> locate_calls (snd (storage_set_boot_device env device s)) = locate_calls s
   \<and> EFI_ERROR EFI_UNSUPPORTED"
proof (intro conjI allI impI)
  show "EFI_ERROR EFI_UNSUPPORTED" by (rule EFI_ERROR_UNSUPPORTED)
  show "locate_calls (snd (storage_set_boot_device env device s)) = locate_calls s"
    by (simp add: storage_set_boot_device_def split: option.splits sum.splits prod.splits)
next
  assume "DevicePathFromHandle env device = None"
  then show "storage_set_boot_device env device s = (EFI_UNSUPPORTED, s)"
    by (simp add: storage_set_boot_device_def)
next
  fix dp
  assume "DevicePathFromHandle env device = Some dp \<and> get_pci_device_path env dp = None"
  then show "storage_set_boot_device env device s = (EFI_UNSUPPORTED, s)"
    by (simp add: storage_set_boot_device_def)
next
  fix dp
  assume a: "DevicePathFromHandle env device = Some dp
        \<and> (\<forall>t\<in>{STORAGE_EMMC, STORAGE_UFS, STORAGE_SDCARD, STORAGE_SATA}.
              \<not> probe (STORAGE env t) dp)"
  then have "identify_storage env dp STORAGE_ALL = Inl EFI_UNSUPPORTED"
    by (intro identify_storage_no_probe) simp
  with a show "storage_set_boot_device env device s = (EFI_UNSUPPORTED, s)"
    by (simp add: storage_set_boot_device_def split: option.splits)
next
  assume "EFI_ERROR (fst (storage_set_boot_device env device s))"
  then show "storage_set_boot_device env device s = (EFI_UNSUPPORTED, s)"
    by (auto simp: storage_set_boot_device_def not_EFI_ERROR_SUCCESS
             split: option.splits sum.splits prod.splits dest: identify_storage_Inl)
next
  assume "\<not> EFI_ERROR (fst (storage_set_boot_device env device s))"
  then show "\<exists>dp pci ty. DevicePathFromHandle env device = Some dp
             \<and> get_pci_device_path env dp = Some pci
             \<and> identify_storage env dp STORAGE_ALL = Inr (STORAGE env ty, ty)
             \<and> storage_set_boot_device env device s
                 = (EFI_SUCCESS,
                    s\<lparr> cur_storage := Some (STORAGE env ty), boot_device_type := ty,
                       initialized := True, boot_device := pci \<rparr>)"
    by (auto simp: storage_set_boot_device_def EFI_ERROR_UNSUPPORTED
             split: option.splits sum.splits prod.splits
             dest: identify_storage_Inl identify_storage_Inr)
qed

text \<open>
  The theorem applied to a state in which the eMMC controller on Device 1 is pinned: a
  handle with no device path, a path that is not PCI and a PCI path no technology
  recognizes each fail and leave the state as it was; the UFS controller on Device 2 is
  committed.
\<close>

theorem set_boot_device_commit_witness:
  "storage_set_boot_device emmc_ufs_sata 0 pinned_emmc = (EFI_UNSUPPORTED, pinned_emmc)
   \<and> storage_set_boot_device emmc_ufs_sata 200 pinned_emmc = (EFI_UNSUPPORTED, pinned_emmc)
   \<and> storage_set_boot_device emmc_ufs_sata 50 pinned_emmc = (EFI_UNSUPPORTED, pinned_emmc)
   \<and> storage_set_boot_device emmc_ufs_sata 2 pinned_emmc
       = (EFI_SUCCESS,
          pinned_emmc \<lparr> cur_storage := Some (STORAGE emmc_ufs_sata STORAGE_UFS),
                        boot_device_type := STORAGE_UFS, initialized := True,
                        boot_device := pci_node 0 2 \<rparr>)
   \<and> boot_device pinned_emmc = pci_node 0 1 \<and> boot_device_type pinned_emmc = STORAGE_EMMC
   \<and> initialized pinned_emmc"
  using set_boot_device_commit [of emmc_ufs_sata 0 pinned_emmc]
    set_boot_device_commit [of emmc_ufs_sata 200 pinned_emmc]
    set_boot_device_commit [of emmc_ufs_sata 50 pinned_emmc]
    set_boot_device_commit [of emmc_ufs_sata 2 pinned_emmc]
  by (simp add: pinned_emmc_def emmc_ufs_sata_def example_defs)

section \<open>storage_check_logical_unit\<close>

text \<open>
  Claim C7, amended. storage_check_logical_unit first runs the lazy identification when
  the cache is not yet initialized, and leaves the state valid_storage leaves. It returns
  EFI_UNSUPPORTED unless, in that state, the cache is valid and the path's PCI node equals
  the cached address on both Function and Device; when both hold it returns exactly the
  result of the cached descriptor's check_logical_unit for the path and unit. In
  particular it returns EFI_UNSUPPORTED for any path when no identification has succeeded,
  the one the call itself triggers included: when the cache is initialized and holds no
  descriptor or no address, and when the cache is not initialized and the identification
  the call triggers fails.
\<close>

theorem check_logical_unit_guard:
  "snd (storage_check_logical_unit env p lu s) = snd (valid_storage env s)
   \<and> (\<not> (cache_valid (snd (storage_check_logical_unit env p lu s))
          \<and> (\<exists>pci. get_pci_device_path env p = Some pci
                \<and> Function pci = Function (boot_device (snd (storage_check_logical_unit env p lu s)))
                \<and> Device pci = Device (boot_device (snd (storage_check_logical_unit env p lu s)))))
        \<longrightarrow> fst (storage_check_logical_unit env p lu s) = Some EFI_UNSUPPORTED)
   \<and> (cache_valid (snd (storage_check_logical_unit env p lu s))
        \<and> (\<exists>pci. get_pci_device_path env p = Some pci
                \<and> Function pci = Function (boot_device (snd (storage_check_logical_unit env p lu s)))
                \<and> Device pci = Device (boot_device (snd (storage_check_logical_unit env p lu s))))
        \<longrightarrow> (\<exists>sg. cur_storage (snd (storage_check_logical_unit env p lu s)) = Some sg
               \<and> fst (storage_check_logical_unit env p lu s) = Some (check_logical_unit sg p lu)))
   \<and> (initialized s \<and> (cur_storage s = None \<or> Header_Type (boot_device s) = 0)
        \<longrightarrow> storage_check_logical_unit env p lu s = (Some EFI_UNSUPPORTED, s))
   \<and> (\<not> initialized s
        \<and> EFI_ERROR (fst (identify_boot_device env STORAGE_ALL (s\<lparr> initialized := True \<rparr>)))
        \<longrightarrow> fst (storage_check_logical_unit env p lu s) = Some EFI_UNSUPPORTED)"
proof -
  obtain b s' where vs: "valid_storage env s = (b, s')"
    by (cases "valid_storage env s") auto
  note res = valid_storage_result [OF vs]
  have st: "snd (storage_check_logical_unit env p lu s) = s'"
    using vs by (auto simp: storage_check_logical_unit_def split: option.splits bool.splits)
  have ibd: "is_boot_device env s' p = (Header_Type (boot_device s') \<noteq> 0
       \<and> (\<exists>pci. get_pci_device_path env p = Some pci
                \<and> Function pci = Function (boot_device s')
                \<and> Device pci = Device (boot_device s')))"
    by (auto simp: is_boot_device_def split: option.splits)
  have 1: "snd (storage_check_logical_unit env p lu s) = snd (valid_storage env s)"
    using st vs by simp
  have 2: "fst (storage_check_logical_unit env p lu s) = Some EFI_UNSUPPORTED"
    if "\<not> (cache_valid s' \<and> (\<exists>pci. get_pci_device_path env p = Some pci
                \<and> Function pci = Function (boot_device s')
                \<and> Device pci = Device (boot_device s')))"
  proof (cases "b \<and> is_boot_device env s' p")
    case True
    then have "cache_valid s'" using res ibd by (auto simp: cache_valid_def)
    with that True ibd show ?thesis by auto
  next
    case False
    then show ?thesis using vs
      by (auto simp: storage_check_logical_unit_def split: option.splits bool.splits)
  qed
  have 3: "\<exists>sg. cur_storage s' = Some sg
               \<and> fst (storage_check_logical_unit env p lu s) = Some (check_logical_unit sg p lu)"
    if "cache_valid s' \<and> (\<exists>pci. get_pci_device_path env p = Some pci
                \<and> Function pci = Function (boot_device s')
                \<and> Device pci = Device (boot_device s'))"
  proof -
    from that have cv: "cur_storage s' \<noteq> None" "Header_Type (boot_device s') \<noteq> 0"
      by (auto simp: cache_valid_def)
    then have b using res(3) by (cases b) auto
    moreover have "is_boot_device env s' p" using that cv ibd by auto
    ultimately show ?thesis using vs cv
      by (auto simp: storage_check_logical_unit_def)
  qed
  have 4: "storage_check_logical_unit env p lu s = (Some EFI_UNSUPPORTED, s)"
    if "initialized s \<and> (cur_storage s = None \<or> Header_Type (boot_device s) = 0)"
    using that by (auto simp: storage_check_logical_unit_def valid_storage_def)
  have 5: "fst (storage_check_logical_unit env p lu s) = Some EFI_UNSUPPORTED"
    if "\<not> initialized s
        \<and> EFI_ERROR (fst (identify_boot_device env STORAGE_ALL (s\<lparr> initialized := True \<rparr>)))"
    using that by (auto simp: storage_check_logical_unit_def valid_storage_def Let_def)
  show ?thesis
    unfolding st using 1 2 3 4 5 unfolding st by blast
qed

text \<open>
  The theorem applied to a platform with one eMMC controller on Device 28: once
  storage_set_boot_device has pinned that controller, the call for its path delegates to
  the descriptor and a path at another address is refused; from the initial state a path
  with no PCI node and a failed enumeration give EFI_UNSUPPORTED, and so does a cache
  marked initialized with nothing identified.
\<close>

theorem check_logical_unit_guard_witness:
  "fst (storage_check_logical_unit one_emmc 28 ()
          (snd (storage_set_boot_device one_emmc 28 initial_state))) = Some EFI_SUCCESS
   \<and> fst (storage_check_logical_unit one_emmc 29 ()
          (snd (storage_set_boot_device one_emmc 28 initial_state))) = Some EFI_UNSUPPORTED
   \<and> fst (storage_check_logical_unit one_emmc 200 () initial_state) = Some EFI_UNSUPPORTED
   \<and> fst (storage_check_logical_unit failed_enumeration 28 () initial_state)
       = Some EFI_UNSUPPORTED
   \<and> fst (storage_check_logical_unit one_emmc 28 ()
            (initial_state \<lparr> initialized := True \<rparr>)) = Some EFI_UNSUPPORTED"
  using check_logical_unit_guard
      [of one_emmc 28 "()" "snd (storage_set_boot_device one_emmc 28 initial_state)"]
    check_logical_unit_guard
      [of one_emmc 29 "()" "snd (storage_set_boot_device one_emmc 28 initial_state)"]
    check_logical_unit_guard [of one_emmc 200 "()" initial_state]
    check_logical_unit_guard [of failed_enumeration 28 "()" initial_state]
    check_logical_unit_guard [of one_emmc 28 "()" "initial_state \<lparr> initialized := True \<rparr>"]
  by (simp add: one_emmc_def failed_enumeration_def cache_valid_def example_defs)

text \<open>
  Claim C7 as stated fails for a call made before any identification when a supported
  device is present: from the initial state, where the cache is not initialized and holds
  neither address nor descriptor, the call runs the scan itself, the scan selects the eMMC
  controller on Device 28, and the call for that device returns the descriptor's result
  EFI_SUCCESS, not EFI_UNSUPPORTED.
\<close>

theorem check_logical_unit_runs_lazy_scan:
  "\<not> initialized (initial_state :: (nat, nat, unit, unit) storage_state)
   \<and> \<not> cache_valid (initial_state :: (nat, nat, unit, unit) storage_state)
   \<and> locate_calls (initial_state :: (nat, nat, unit, unit) storage_state) = 0
   \<and> fst (storage_check_logical_unit one_emmc 28 () initial_state) = Some EFI_SUCCESS
   \<and> locate_calls (snd (storage_check_logical_unit one_emmc 28 () initial_state)) = 1
   \<and> EFI_SUCCESS \<noteq> EFI_UNSUPPORTED"
  by (simp add: one_emmc_def cache_valid_def example_defs)

section \<open>fill_with: the range check\<close>

text \<open>
  Claim C8. For every device and every range with end <= start, fill_with returns
  EFI_INVALID_PARAMETER, which is an error status, and performs no write: the device is
  unchanged and the list of write calls is empty.
\<close>

theorem fill_with_invalid_range:
  "e \<le> start \<Longrightarrow>
     fill_with bio start e pattern pb dev = Some (EFI_INVALID_PARAMETER, dev, [])
     \<and> EFI_ERROR EFI_INVALID_PARAMETER"
  by (simp add: fill_with_def EFI_ERROR_def EFI_INVALID_PARAMETER_def EFIERR_def)

theorem fill_with_invalid_range_witness:
  "fill_with ok_bio 13 10 () 2 0 = Some (EFI_INVALID_PARAMETER, 0, [])
   \<and> fill_with ok_bio 10 10 () 2 0 = Some (EFI_INVALID_PARAMETER, 0, [])"
  using fill_with_invalid_range [of 10 13 ok_bio "()" 2 0]
    fill_with_invalid_range [of 10 10 ok_bio "()" 2 0]
  by simp

section \<open>fill_with: tiling of the range\<close>

text \<open>
  Claim C9, amended. Take a call with end > start and pattern_blocks >= 1 in which neither
  end + pattern_blocks nor BlockSize * pattern_blocks exceeds the largest 64-bit value.
  Then there is a list of exactly ceil((end - start + 1) / pattern_blocks) writes that
  tiles the inclusive range: the k-th write starts at block start + k * pattern_blocks and
  covers pattern_blocks blocks, clamped to the blocks remaining up to end; no write extends
  past block end, every write but the last covers pattern_blocks blocks, the last write
  ends exactly at block end, and the byte count of each write is BlockSize times the
  number of blocks it covers. If each of these writes, issued in turn to the device,
  succeeds, fill_with returns EFI_SUCCESS having issued exactly these writes, and the
  device is in the state that these WriteBlocks calls, with these first blocks and byte
  counts, leave. A device on which every write succeeds meets that condition.
\<close>

theorem fill_with_tiles:
  assumes "start < e" and "pb \<noteq> 0" and "unat e + unat pb < 2 ^ 64"
    and "unat (BlockSize bio) * unat pb < 2 ^ 64"
  shows "\<exists>tr. length tr = (unat e - unat start + 1 + (unat pb - 1)) div unat pb
     \<and> (\<forall>k<length tr.
           unat (fst (tr ! k)) = unat start + k * unat pb
         \<and> unat (snd (tr ! k)) = min (unat pb) (unat e + 1 - (unat start + k * unat pb))
         \<and> unat (fst (tr ! k)) + unat (snd (tr ! k)) \<le> unat e + 1
         \<and> (k + 1 < length tr \<longrightarrow> snd (tr ! k) = pb)
         \<and> (k + 1 = length tr \<longrightarrow> unat (fst (tr ! k)) + unat (snd (tr ! k)) = unat e + 1)
         \<and> unat (ucast (BlockSize bio) * snd (tr ! k) :: 64 word)
             = unat (BlockSize bio) * unat (snd (tr ! k)))
     \<and> (writes_ok bio pattern dev tr
          \<longrightarrow> fill_with bio start e pattern pb dev
                = Some (EFI_SUCCESS, after_writes bio pattern dev tr, tr))
     \<and> (writes_succeed bio \<longrightarrow> writes_ok bio pattern dev tr)"
proof -
  define S E P where "S = unat start" and "E = unat e" and "P = unat pb"
  define n where "n = (E + P - S) div P"
  define tr :: "(64 word \<times> 64 word) list"
    where "tr = map (\<lambda>(a, n). (of_nat a, of_nat n)) (chunks n S E P)"
  have pos: "0 < P" using assms(2) by (simp add: P_def unat_gt_0)
  have lt: "S < E" using assms(1) by (simp add: S_def E_def word_less_nat_alt)
  have nov: "E + P < 18446744073709551616" using assms(3) by (simp add: E_def P_def)
  have ns: "\<not> e \<le> start" using assms(1) by auto
  have run: "fill_with bio start e pattern pb dev
               = Some (EFI_SUCCESS, after_writes bio pattern dev tr, tr)"
    if "writes_ok bio pattern dev tr"
    using fill_with_loop_run [OF assms(2,3), of bio pattern dev start start 0 0 "[]"] that ns
    by (simp add: fill_with_def tr_def n_def S_def E_def P_def)
  have len: "length tr = n" by (simp add: tr_def length_chunks)
  have n_eq: "n = (E - S + 1 + (P - 1)) div P"
    unfolding n_def using pos lt by (intro arg_cong2 [where f = "(div)"]) simp_all
  have elems: "unat (fst (tr ! k)) = S + k * P
         \<and> unat (snd (tr ! k)) = min P (E + 1 - (S + k * P))
         \<and> unat (fst (tr ! k)) + unat (snd (tr ! k)) \<le> E + 1
         \<and> (k + 1 < n \<longrightarrow> snd (tr ! k) = pb)
         \<and> (k + 1 = n \<longrightarrow> unat (fst (tr ! k)) + unat (snd (tr ! k)) = E + 1)"
    if k: "k < n" for k
  proof -
    have "Suc k * P \<le> n * P" using k by (intro mult_le_mono1) simp
    also have "\<dots> \<le> E + P - S" unfolding n_def by (rule div_times_less_eq_dividend)
    finally have a_le: "S + k * P \<le> E" using lt by simp
    have nth: "tr ! k = (of_nat (S + k * P), of_nat (min P (E + 1 - (S + k * P))))"
      using k by (simp add: tr_def length_chunks nth_chunks)
    have u1: "unat (of_nat (S + k * P) :: 64 word) = S + k * P"
      using a_le nov by (intro unat_of_nat_64) simp
    have u2: "unat (of_nat (min P (E + 1 - (S + k * P))) :: 64 word)
                = min P (E + 1 - (S + k * P))"
      using nov by (intro unat_of_nat_64) simp
    have full: "min P (E + 1 - (S + k * P)) = P" if "k + 1 < n"
    proof -
      have "Suc (Suc k) * P \<le> n * P" using that by (intro mult_le_mono1) simp
      also have "\<dots> \<le> E + P - S" unfolding n_def by (rule div_times_less_eq_dividend)
      finally have "S + k * P + P + P \<le> E + P" using lt by simp
      then show ?thesis by simp
    qed
    have last: "S + k * P + min P (E + 1 - (S + k * P)) = E + 1" if "k + 1 = n"
    proof -
      have "E + P - S < Suc n * P"
        unfolding n_def using pos by (metis dividend_less_div_times mult.commute mult_Suc)
      then have "E + P - S < (k + 2) * P" using that by simp
      then have "E + 1 \<le> S + k * P + P" using lt by simp
      then show ?thesis using a_le by simp
    qed
    have wp: "(of_nat P :: 64 word) = pb" by (simp add: P_def)
    show ?thesis
      unfolding nth fst_conv snd_conv u1 u2
      using a_le full last wp by auto
  qed
  have bytes: "unat (ucast (BlockSize bio) * snd (tr ! k) :: 64 word)
                 = unat (BlockSize bio) * unat (snd (tr ! k))"
    if k: "k < n" for k
  proof -
    have "unat (snd (tr ! k)) \<le> P" using elems [OF k] by simp
    then have "unat (BlockSize bio) * unat (snd (tr ! k)) \<le> unat (BlockSize bio) * P"
      by (rule mult_le_mono2)
    also have "\<dots> < 2 ^ 64" using assms(4) by (simp add: P_def)
    finally show ?thesis by (rule unat_block_bytes)
  qed
  have len': "length tr = (unat e - unat start + 1 + (unat pb - 1)) div unat pb"
    using len n_eq by (simp add: S_def E_def P_def)
  have all: "\<forall>k<length tr.
           unat (fst (tr ! k)) = unat start + k * unat pb
         \<and> unat (snd (tr ! k)) = min (unat pb) (unat e + 1 - (unat start + k * unat pb))
         \<and> unat (fst (tr ! k)) + unat (snd (tr ! k)) \<le> unat e + 1
         \<and> (k + 1 < length tr \<longrightarrow> snd (tr ! k) = pb)
         \<and> (k + 1 = length tr \<longrightarrow> unat (fst (tr ! k)) + unat (snd (tr ! k)) = unat e + 1)
         \<and> unat (ucast (BlockSize bio) * snd (tr ! k) :: 64 word)
             = unat (BlockSize bio) * unat (snd (tr ! k))"
  proof (intro allI impI)
    fix k assume "k < length tr"
    then have k: "k < n" using len by simp
    from elems [OF k] bytes [OF k]
    show "unat (fst (tr ! k)) = unat start + k * unat pb
         \<and> unat (snd (tr ! k)) = min (unat pb) (unat e + 1 - (unat start + k * unat pb))
         \<and> unat (fst (tr ! k)) + unat (snd (tr ! k)) \<le> unat e + 1
         \<and> (k + 1 < length tr \<longrightarrow> snd (tr ! k) = pb)
         \<and> (k + 1 = length tr \<longrightarrow> unat (fst (tr ! k)) + unat (snd (tr ! k)) = unat e + 1)
         \<and> unat (ucast (BlockSize bio) * snd (tr ! k) :: 64 word)
             = unat (BlockSize bio) * unat (snd (tr ! k))"
      unfolding len S_def E_def P_def by blast
  qed
  have okall: "writes_succeed bio \<longrightarrow> writes_ok bio pattern dev tr"
    by (simp add: writes_succeed_writes_ok)
  from run len' all okall show ?thesis by blast
qed

text \<open>
  The theorem applied to start = 10, end = 13 and pattern_blocks = 2 on a device with
  512-byte blocks that records the calls it receives: exactly two writes, of 1024 bytes
  at block 10 and 1024 bytes at block 12, covering blocks 10 to 11 and 12 to 13.
\<close>

theorem fill_with_tiles_witness:
  "(10 :: 64 word) < 13
   \<and> fill_with (recording_bio 512) 10 13 () 2 []
       = Some (EFI_SUCCESS, [(10, 1024), (12, 1024)], [(10, 2), (12, 2)])"
  using fill_with_tiles [of 10 13 2 "recording_bio 512" "()" "[]"]
  by (simp add: fill_with_def fill_with_loop.simps recording_bio_def not_EFI_ERROR_SUCCESS Let_def)

text \<open>
  Claim C9 as stated fails when the 64-bit arithmetic wraps around. For start = 5, end = 6
  and pattern_blocks = 2^64 - 2, with all writes succeeding, \<open>lba + pattern_blocks\<close>
  wraps: fill_with issues three writes and not one; the first two cover 2^64 - 2 blocks
  each, far past block 6, and the last two start before block 5. For start = 0,
  end = 2^33 - 1, pattern_blocks = 2^33 and a block size of 2^31 bytes the single write
  is for the right blocks, but its byte count \<open>BlockSize * size\<close> wraps to 0, so the
  device is asked to write nothing.
\<close>

theorem fill_with_wraps_around:
  "fill_with ok_bio 5 6 () 0xFFFFFFFFFFFFFFFE 0
     = Some (EFI_SUCCESS, 3, [(5, 0xFFFFFFFFFFFFFFFE), (3, 0xFFFFFFFFFFFFFFFE), (1, 6)])
   \<and> fill_with (recording_bio 0x80000000) 0 0x1FFFFFFFF () 0x200000000 []
     = Some (EFI_SUCCESS, [(0, 0)], [(0, 0x200000000)])"
  by (simp add: fill_with_def fill_with_loop.simps ok_bio_def recording_bio_def
        not_EFI_ERROR_SUCCESS Let_def)

section \<open>fill_with: termination\<close>

text \<open>
  Claim C10, amended. fill_with returns, whatever the writes report, for every input with
  pattern_blocks >= 1 for which end + pattern_blocks does not exceed the largest 64-bit
  value. For pattern_blocks = 0 and end > start the loop never advances: fill_with does
  not return when all writes succeed, and when it returns it returns the error of a failed
  write.
\<close>

theorem fill_with_termination:
  "(pb \<noteq> 0 \<and> unat e + unat pb < 2 ^ 64
      \<longrightarrow> (\<exists>r. fill_with bio start e pattern pb dev = Some r))
   \<and> (pb = 0 \<and> start < e \<and> writes_succeed bio
      \<longrightarrow> fill_with bio start e pattern pb dev = None)
   \<and> (pb = 0 \<and> start < e
      \<longrightarrow> (\<forall>r. fill_with bio start e pattern pb dev = Some r \<longrightarrow> EFI_ERROR (fst r)))"
proof (intro conjI impI allI)
  assume "pb \<noteq> 0 \<and> unat e + unat pb < 2 ^ 64"
  then show "\<exists>r. fill_with bio start e pattern pb dev = Some r"
    using fill_with_loop_returns [of pb e bio start pattern start 0 0 dev "[]"]
    by (simp add: fill_with_def)
next
  assume a: "pb = 0 \<and> start < e \<and> writes_succeed bio"
  then have "\<not> e \<le> start" and "start \<le> e" by auto
  then show "fill_with bio start e pattern pb dev = None"
    using a by (simp add: fill_with_def fill_with_loop_never_returns)
next
  fix r
  assume a: "pb = 0 \<and> start < e" and r: "fill_with bio start e pattern pb dev = Some r"
  from a have "\<not> e \<le> start" and "start \<le> e" by auto
  then show "EFI_ERROR (fst r)"
    using a r fill_with_loop_stuck_error [of bio start e pattern pb start 0 0 dev "[]" r]
    by (simp add: fill_with_def)
qed

text \<open>
  The theorem applied to the range 10 to 13 on a device whose writes all succeed: with
  pattern_blocks = 2 the call returns, with pattern_blocks = 0 it does not.
\<close>

theorem fill_with_termination_witness:
  "fill_with ok_bio 10 13 () 2 0 \<noteq> None \<and> fill_with ok_bio 10 13 () 0 0 = None"
  using fill_with_termination [of 2 13 ok_bio 10 "()" 0]
    fill_with_termination [of 0 13 ok_bio 10 "()" 0]
  by (simp add: writes_succeed_ok_bio)

text \<open>
  Claim C10 as stated fails for pattern_blocks >= 1 when end is the largest 64-bit value:
  \<open>lba <= end\<close> then holds for every \<open>lba\<close>, and with all writes succeeding fill_with
  never returns.
\<close>

theorem fill_with_max_end_diverges: "fill_with ok_bio 0 0xFFFFFFFFFFFFFFFF () 1 0 = None"
  by (simp add: fill_with_def fill_with_loop_never_returns writes_succeed_ok_bio)

end
